theory Spec2Isabelle
  imports Complex_Main "HOL-Library.Log_Nat"
begin

section \<open>Python exceptions\<close>

text \<open>
  Every exception the modelled code can raise is a value of \<open>error\<close>; a function that
  can raise returns \<open>error + 'a\<close> with \<open>Inl\<close> for the exception.
\<close>

datatype error =
    ZeroDivisionError | IndexError | KeyError | TypeError | AttributeError
  | ValueError | OverflowError | SerialException | MeasurementError

section \<open>Patch grid rotation\<close>

text \<open>
  \<open>ROT_0, ROT_90, ROT_180, ROT_270 = range(4)\<close>. The rotation argument is a Python
  integer; every value other than 1, 2 and 3 takes the last branch of
  \<open>matrix_rotation\<close>.
\<close>

definition ROT_0 :: int where "ROT_0 = 0"
definition ROT_90 :: int where "ROT_90 = 1"
definition ROT_180 :: int where "ROT_180 = 2"
definition ROT_270 :: int where "ROT_270 = 3"

text \<open>
  \<open>x, y = i % nx, i // nx\<close> raises ZeroDivisionError for \<open>nx = 0\<close>; for every other
  divisor Python's floor division and modulo are \<open>div\<close> and \<open>mod\<close> on \<open>int\<close>.
\<close>

definition matrix_rotation :: "int \<Rightarrow> int \<Rightarrow> int \<Rightarrow> int \<Rightarrow> error + int" where
  "matrix_rotation i nx ny rotation =
     (if nx = 0 then Inl ZeroDivisionError
      else let x = i mod nx; y = i div nx in
        if rotation = ROT_90 then Inr (y + (nx - 1 - x) * ny)
        else if rotation = ROT_180 then Inr ((nx - 1 - x) + (ny - 1 - y) * nx)
        else if rotation = ROT_270 then Inr (x * nx + (ny - 1 - y))
        else Inr i)"

text \<open>
  Subscripting a Python list: a negative index counts from the end, an index outside
  \<open>[-len, len)\<close> raises IndexError. The result is the position that is read or written.
\<close>

definition py_index :: "'a list \<Rightarrow> int \<Rightarrow> error + nat" where
  "py_index xs i =
     (if 0 \<le> i \<and> i < int (length xs) then Inr (nat i)
      else if i < 0 \<and> - int (length xs) \<le> i then Inr (nat (int (length xs) + i))
      else Inl IndexError)"

definition py_range :: "int \<Rightarrow> int list" where
  "py_range n = map int [0..<nat n]"

text \<open>
  The body of \<open>for i in range(nx * ny)\<close> in \<open>patch_pos_update\<close>: the new index is
  computed, \<open>patches[i]\<close> is read, and the cell \<open>new_patches[new_i]\<close> is written. A
  list cell holds \<open>None\<close> (Python's None, the initial content of \<open>new_patches\<close>) or a
  patch.
\<close>

fun patch_loop :: "int \<Rightarrow> int \<Rightarrow> int \<Rightarrow> 'a option list \<Rightarrow> int list \<Rightarrow> 'a option list
                   \<Rightarrow> error + 'a option list" where
  "patch_loop rot nx ny patches [] new_patches = Inr new_patches"
| "patch_loop rot nx ny patches (i # rest) new_patches =
     (case matrix_rotation i nx ny rot of
        Inl e \<Rightarrow> Inl e
      | Inr new_i \<Rightarrow>
         (case py_index patches i of
            Inl e \<Rightarrow> Inl e
          | Inr src \<Rightarrow>
             (case py_index new_patches new_i of
                Inl e \<Rightarrow> Inl e
              | Inr dst \<Rightarrow>
                  patch_loop rot nx ny patches rest (new_patches[dst := patches ! src]))))"

definition patch_pos_update :: "int \<Rightarrow> int \<Rightarrow> int \<Rightarrow> 'a option list \<Rightarrow> error + 'a option list" where
  "patch_pos_update array_rotation nx ny patches =
     patch_loop array_rotation nx ny patches (py_range (nx * ny))
       (replicate (length patches) None)"

text \<open>Applying \<open>patch_pos_update\<close> \<open>k\<close> times in succession, each time to the previous result.\<close>

fun repeat_update :: "nat \<Rightarrow> int \<Rightarrow> int \<Rightarrow> int \<Rightarrow> 'a option list \<Rightarrow> error + 'a option list" where
  "repeat_update 0 rot nx ny patches = Inr patches"
| "repeat_update (Suc k) rot nx ny patches =
     (case patch_pos_update rot nx ny patches of
        Inl e \<Rightarrow> Inl e
      | Inr new_patches \<Rightarrow> repeat_update k rot nx ny new_patches)"


text \<open>
  Proof vocabulary: the index maps that \<open>matrix_rotation\<close> computes on a square grid of
  side \<open>n\<close>, for a quarter turn and for a half turn.
\<close>

definition quarter_turn :: "int \<Rightarrow> int \<Rightarrow> int" where
  "quarter_turn n i = i div n + (n - 1 - i mod n) * n"

definition half_turn :: "int \<Rightarrow> int \<Rightarrow> int" where
  "half_turn n i = (n - 1 - i mod n) + (n - 1 - i div n) * n"

section \<open>Numbers and strings of the sweep automation\<close>

text \<open>
  An angle handed around by the sweep code is an \<open>int\<close> (the shipped ranges,
  \<open>random.randint\<close>) or a \<open>float\<close>. The two are kept apart because \<open>str\<close> prints
  them differently. A float angle is modelled by the real number it stands for. The
  attenuation codes are computed in the binary64 arithmetic modelled further below.
\<close>

datatype pynum = PyInt int | PyFloat real

fun num_val :: "pynum \<Rightarrow> real" where
  "num_val (PyInt i) = of_int i"
| "num_val (PyFloat r) = r"

text \<open>\<open>360 - theta\<close>: an int minus an int is an int, anything else a float.\<close>

fun int_minus :: "int \<Rightarrow> pynum \<Rightarrow> pynum" where
  "int_minus a (PyInt i) = PyInt (a - i)"
| "int_minus a (PyFloat r) = PyFloat (of_int a - r)"

text \<open>\<open>math.radians\<close>.\<close>

definition radians :: "real \<Rightarrow> real" where
  "radians x = x * pi / 180"

text \<open>\<open>str\<close> of a Python int: decimal digits, a minus sign for a negative value.\<close>

fun str_nat :: "nat \<Rightarrow> string" where
  "str_nat n = (if n < 10 then [''0123456789'' ! n]
                else str_nat (n div 10) @ [''0123456789'' ! (n mod 10)])"

definition str_int :: "int \<Rightarrow> string" where
  "str_int i = (if i < 0 then CHR ''-'' # str_nat (nat (- i)) else str_nat (nat i))"

text \<open>
  \<open>str\<close> of a number. The printing of a float (Python's shortest round-trip
  representation) is a parameter \<open>float_str\<close>.
\<close>

fun str_num :: "(real \<Rightarrow> string) \<Rightarrow> pynum \<Rightarrow> string" where
  "str_num float_str (PyInt i) = str_int i"
| "str_num float_str (PyFloat r) = float_str r"

text \<open>\<open>s.replace('.', '_')\<close>: every full stop becomes an underscore.\<close>

fun replace_dot :: "string \<Rightarrow> string" where
  "replace_dot [] = []"
| "replace_dot (c # cs) = (if c = CHR ''.'' then CHR ''_'' else c) # replace_dot cs"

section \<open>Python floats\<close>

text \<open>
  A Python float is an IEEE 754 binary64 value: a finite number \<open>m * 2^e\<close> with
  \<open>|m| < 2^53\<close> and \<open>-1074 \<le> e \<le> 971\<close>, an infinity, or a nan. The finite values are
  held as rationals; \<open>0.0\<close> and \<open>-0.0\<close> are the one value \<open>Finite 0\<close>, which none of
  the operations below can tell apart.
\<close>

datatype double = Finite rat | PlusInf | MinusInf | NaN

text \<open>
  \<open>binade x\<close> is the exponent \<open>k\<close> with \<open>2^k \<le> |x| < 2^(k+1)\<close>, for \<open>x\<close> other than
  zero, computed from the bit length of the integer part of \<open>|x|\<close> or of \<open>1 / |x|\<close>.
\<close>

definition binade :: "rat \<Rightarrow> int" where
  "binade x =
     (if 1 \<le> \<bar>x\<bar> then bitlen \<lfloor>\<bar>x\<bar>\<rfloor> - 1
      else - bitlen (\<lceil>1 / \<bar>x\<bar>\<rceil> - 1))"

text \<open>
  \<open>round(x)\<close> with one argument, on the exact value of a finite float: the nearest
  integer, a tie going to the even neighbour.
\<close>

definition py_round :: "rat \<Rightarrow> int" where
  "py_round x =
     (let f = \<lfloor>x\<rfloor>; d = x - of_int f in
      if d < 1 / 2 then f
      else if 1 / 2 < d then f + 1
      else if even f then f else f + 1)"

text \<open>
  The result of an arithmetic operation is its exact value rounded to the nearest
  float, a tie going to the even significand. The significand has 53 bits, fewer below
  \<open>2^-1022\<close> where the exponent stops at \<open>-1074\<close>; a rounded magnitude of \<open>2^1024\<close> or
  more is an infinity.
\<close>

definition round_double :: "rat \<Rightarrow> double" where
  "round_double x =
     (if x = 0 then Finite 0
      else let e = max (binade x - 52) (- 1074);
               y = of_int (py_round (x / 2 powi e)) * 2 powi e
           in if 2 ^ 1024 \<le> \<bar>y\<bar> then (if 0 < x then PlusInf else MinusInf) else Finite y)"

text \<open>A float literal of the source, such as \<open>1.6\<close>: the float nearest to the decimal.\<close>

definition float_literal :: "rat \<Rightarrow> double" where
  "float_literal r = round_double r"

text \<open>\<open>a - b\<close> on floats.\<close>

fun double_sub :: "double \<Rightarrow> double \<Rightarrow> double" where
  "double_sub NaN b = NaN"
| "double_sub a NaN = NaN"
| "double_sub PlusInf PlusInf = NaN"
| "double_sub MinusInf MinusInf = NaN"
| "double_sub PlusInf b = PlusInf"
| "double_sub MinusInf b = MinusInf"
| "double_sub (Finite a) PlusInf = MinusInf"
| "double_sub (Finite a) MinusInf = PlusInf"
| "double_sub (Finite a) (Finite b) = round_double (a - b)"

text \<open>\<open>a * 4\<close> on a float: the integer 4 is converted to \<open>4.0\<close>.\<close>

fun times_four :: "double \<Rightarrow> double" where
  "times_four (Finite a) = round_double (a * 4)"
| "times_four PlusInf = PlusInf"
| "times_four MinusInf = MinusInf"
| "times_four NaN = NaN"

text \<open>\<open>a >= 0\<close> on a float: false for a nan.\<close>

fun double_ge_zero :: "double \<Rightarrow> bool" where
  "double_ge_zero (Finite a) = (0 \<le> a)"
| "double_ge_zero PlusInf = True"
| "double_ge_zero MinusInf = False"
| "double_ge_zero NaN = False"

text \<open>
  \<open>round(a)\<close> on a float: OverflowError for an infinity, ValueError for a nan, and an
  integer of any size otherwise.
\<close>

fun round_float :: "double \<Rightarrow> error + int" where
  "round_float (Finite a) = Inr (py_round a)"
| "round_float PlusInf = Inl OverflowError"
| "round_float MinusInf = Inl OverflowError"
| "round_float NaN = Inl ValueError"

section \<open>HardwareInterface.to_attenuation_code\<close>

text \<open>
  \<open>db -= insertion_loss_db\<close>, then \<open>int(round(db * 4)) if db >= 0 else 0\<close>; \<open>int\<close> of
  the integer that \<open>round\<close> returns is that integer.
\<close>

definition to_attenuation_code :: "double \<Rightarrow> double \<Rightarrow> error + int" where
  "to_attenuation_code db insertion_loss_db =
     (let db' = double_sub db insertion_loss_db in
      if double_ge_zero db' then round_float (times_four db') else Inr 0)"

section \<open>Configuration (config.py)\<close>

text \<open>
  The module-level constants of \<open>config.py\<close>, read by every component. The two ranges
  are held as the sequences that \<open>list(PHI_RANGE)\<close> and \<open>list(THETA_RANGE)\<close> yield.
\<close>

record config =
  ARRAY_INTERFACE :: string
  SYSTEM_CONFIGURATION :: string
  PLOT_SAVE_PATH :: string
  MODEM_FREQ :: int
  KU_FREQ_RANGE :: "int list"
  THETA_RANGE :: "pynum list"
  PHI_RANGE :: "pynum list"
  SWEEP_BOTH_DIRECTIONS :: bool
  ELEVATION_PHI_ADJUSTMENT :: bool
  PHI_RANGE_RANDOM :: bool
  THETA_RANGE_RANDOM :: bool
  TURN_TABLE_ELV_LIMIT :: real
  EL_START :: real
  EL_FINISH :: real
  POL_START :: real
  POL_FINISH :: real
  AZ_START :: real
  AZ_FINISH :: real
  HORN_START :: real
  HORN_FINISH :: real

text \<open>\<open>POL_ANGLE = 0 if ARRAY_INTERFACE == "" else 90\<close>.\<close>

definition POL_ANGLE :: "config \<Rightarrow> int" where
  "POL_ANGLE cfg = (if ARRAY_INTERFACE cfg = [] then 0 else 90)"

text \<open>The values \<open>config.py\<close> ships with.\<close>

definition shipped_config :: config where
  "shipped_config =
     \<lparr> ARRAY_INTERFACE = [], SYSTEM_CONFIGURATION = [], PLOT_SAVE_PATH = ''C:'' @ CHR 0x5C # ''tests'',
       MODEM_FREQ = 1500000000, KU_FREQ_RANGE = [11600000000],
       THETA_RANGE = map PyInt [0, 5, 10, 15, 20, 25, 30],
       PHI_RANGE = map PyInt [0, 180],
       SWEEP_BOTH_DIRECTIONS = False, ELEVATION_PHI_ADJUSTMENT = False,
       PHI_RANGE_RANDOM = False, THETA_RANGE_RANDOM = False,
       TURN_TABLE_ELV_LIMIT = 20, EL_START = 0, EL_FINISH = 0,
       POL_START = 0, POL_FINISH = 0, AZ_START = - 35, AZ_FINISH = 35,
       HORN_START = 90, HORN_FINISH = 90 \<rparr>"

section \<open>ChamberController._calculate_sweep_angles\<close>

text \<open>
  The dictionary the method returns, one field per key. The positioner values are
  modelled by the real numbers they stand for. The azimuth bounds are negated on the
  return pass; with \<open>ELEVATION_PHI_ADJUSTMENT\<close> set, both elevation bounds become
  \<open>min(max(theta * sin(radians(phi)), -limit), limit)\<close>.
\<close>

record sweep_angles =
  az_start :: real
  az_finish :: real
  el_start :: real
  el_finish :: real
  pol_start :: real
  pol_finish :: real
  horn_start :: real
  horn_finish :: real

definition calculate_sweep_angles :: "config \<Rightarrow> bool \<Rightarrow> pynum \<Rightarrow> pynum \<Rightarrow> sweep_angles" where
  "calculate_sweep_angles cfg direction_forward phi_angle theta_angle =
     (let reversed = (SWEEP_BOTH_DIRECTIONS cfg \<and> \<not> direction_forward);
          az_s = (if reversed then - AZ_START cfg else AZ_START cfg);
          az_f = (if reversed then - AZ_FINISH cfg else AZ_FINISH cfg);
          calc_elevation = num_val theta_angle * sin (radians (num_val phi_angle));
          clamped = min (max calc_elevation (- TURN_TABLE_ELV_LIMIT cfg)) (TURN_TABLE_ELV_LIMIT cfg);
          el_s = (if ELEVATION_PHI_ADJUSTMENT cfg then clamped else EL_START cfg);
          el_f = (if ELEVATION_PHI_ADJUSTMENT cfg then clamped else EL_FINISH cfg)
      in \<lparr> az_start = az_s, az_finish = az_f, el_start = el_s, el_finish = el_f,
           pol_start = POL_START cfg, pol_finish = POL_FINISH cfg,
           horn_start = HORN_START cfg, horn_finish = HORN_FINISH cfg \<rparr>)"

section \<open>Collaborators and run state\<close>

text \<open>
  What lies outside the repository is a parameter of the model, gathered in \<open>env\<close>:
  \<^item> \<open>str_format template kwargs\<close> is \<open>template.format(**kwargs)\<close>, which raises on a
    malformed template or a missing field;
  \<^item> \<open>float_str\<close> is \<open>str\<close> on a float;
  \<^item> \<open>random_draw k\<close> is the entropy behind the \<open>k\<close>-th call of \<open>random.randint\<close>;
  \<^item> \<open>clock_now k\<close> is \<open>datetime.now().strftime('%Y-%m-%d_%H-%M-%S')\<close> at the
    \<open>k\<close>-th reading of the clock;
  \<^item> \<open>serial_link k\<close> is what the serial link does on the \<open>k\<close>-th call of
    \<open>HardwareInterface.send_commands\<close>: every command acknowledged, an acknowledgement
    missing (printed as "No response", nothing else), or \<open>serial.Serial\<close> failing to
    open the port;
  \<^item> \<open>sweep_runner k\<close> is what the \<open>k\<close>-th call of \<open>run_sweep_test_swt\<close> does: it
    returns (its value, an error report included, is dropped by the caller) or raises.
\<close>

datatype pyval = VNum pynum | VStr string

datatype link_outcome = Acked | NoResponse | LinkFailure

datatype runner_outcome = Completed | ReportedError | RunnerRaised

record env =
  str_format :: "string \<Rightarrow> (string \<times> pyval) list \<Rightarrow> error + string"
  float_str :: "real \<Rightarrow> string"
  random_draw :: "nat \<Rightarrow> nat"
  clock_now :: "nat \<Rightarrow> string"
  serial_link :: "nat \<Rightarrow> link_outcome"
  sweep_runner :: "nat \<Rightarrow> runner_outcome"

text \<open>
  The calls that leave the program: a command list handed to the serial link, and a
  measurement, with the runner's \<open>sweep_name\<close> attribute at the time of the call and the
  three arguments \<open>angles_list\<close>, \<open>save_path\<close> and \<open>sPar\<close>.
\<close>

datatype event = Sent "string list" | Measured string sweep_angles string bool

text \<open>
  The mutable state: \<open>ChamberController.direction_forward\<close>, the runner's
  \<open>sweep_name\<close>, the calls made so far, and how often each collaborator has been used.
  \<open>direction_log\<close> records every value assigned to \<open>self.direction_forward\<close> by
  \<open>run_sweep_sequence\<close>, in order. Output of \<open>print\<close> is not modelled.
\<close>

record world =
  direction_forward :: bool
  sweep_name :: string
  trace :: "event list"
  direction_log :: "bool list"
  draws_used :: nat
  clock_reads :: nat
  sends :: nat
  runs :: nat

text \<open>
  A method that may raise and may change the state returns the exception or its value,
  together with the state it leaves behind.
\<close>

type_synonym 'a exec = "world \<Rightarrow> (error + 'a) \<times> world"

definition exec_return :: "'a \<Rightarrow> 'a exec" where
  "exec_return x = (\<lambda>w. (Inr x, w))"

definition exec_raise :: "error \<Rightarrow> 'a exec" where
  "exec_raise e = (\<lambda>w. (Inl e, w))"

definition exec_lift :: "error + 'a \<Rightarrow> 'a exec" where
  "exec_lift r = (\<lambda>w. (r, w))"

definition exec_bind :: "'a exec \<Rightarrow> ('a \<Rightarrow> 'b exec) \<Rightarrow> 'b exec" where
  "exec_bind m f = (\<lambda>w. case m w of (Inl e, w') \<Rightarrow> (Inl e, w') | (Inr x, w') \<Rightarrow> f x w')"

text \<open>A \<open>for\<close> loop over a list: the first exception ends it.\<close>

fun for_each :: "'a list \<Rightarrow> ('a \<Rightarrow> unit exec) \<Rightarrow> unit exec" where
  "for_each [] body = exec_return ()"
| "for_each (x # xs) body = exec_bind (body x) (\<lambda>_. for_each xs body)"

text \<open>The same for computations without state.\<close>

definition sum_bind :: "error + 'a \<Rightarrow> ('a \<Rightarrow> error + 'b) \<Rightarrow> error + 'b" where
  "sum_bind r f = (case r of Inl e \<Rightarrow> Inl e | Inr x \<Rightarrow> f x)"

fun sum_map :: "('a \<Rightarrow> error + 'b) \<Rightarrow> 'a list \<Rightarrow> error + 'b list" where
  "sum_map f [] = Inr []"
| "sum_map f (x # xs) = sum_bind (f x) (\<lambda>y. sum_bind (sum_map f xs) (\<lambda>ys. Inr (y # ys)))"

definition dict_get :: "('k \<rightharpoonup> 'v) \<Rightarrow> 'k \<Rightarrow> error + 'v" where
  "dict_get d k = (case d k of None \<Rightarrow> Inl KeyError | Some v \<Rightarrow> Inr v)"

definition list_get :: "'a list \<Rightarrow> int \<Rightarrow> error + 'a" where
  "list_get xs i = sum_bind (py_index xs i) (\<lambda>j. Inr (xs ! j))"

section \<open>HardwareInterface.send_commands\<close>

text \<open>
  \<open>serial.Serial(port, baud, timeout=0.5)\<close> raises when the port cannot be opened,
  before anything is written. Otherwise every command is written; a missing
  acknowledgement is printed and the loop goes on. A link that breaks in the middle of
  the writing is not modelled.
\<close>

definition send_commands :: "env \<Rightarrow> string list \<Rightarrow> unit exec" where
  "send_commands ev commands = (\<lambda>w.
     case serial_link ev (sends w) of
       LinkFailure \<Rightarrow> (Inl SerialException, w\<lparr>sends := sends w + 1\<rparr>)
     | _ \<Rightarrow> (Inr (), w\<lparr>sends := sends w + 1, trace := trace w @ [Sent commands]\<rparr>))"

section \<open>SystemMessages\<close>

text \<open>
  The class attributes of \<open>SystemMessages\<close>: the command templates and the two maps.
  The file is a template to be filled in for each system, so the catalogue is a
  parameter; \<open>shipped_messages\<close> is the file as it stands.
\<close>

record system_messages =
  POWER_ON_CMD :: string
  POWER_OFF_CMD :: string
  BAND_CONFIG_CMD :: string
  CHANNEL_CONFIG_CMD :: string
  BPL_ATTEN_CMD :: string
  IF_ATTEN_CMD :: string
  ARRAY_STEER_CMD :: string
  ARRAY_RF_ENABLE_CMD :: string
  POSE_CMD :: string
  POINTING_GEN_CMD :: string
  MODEM_IF_CMD :: string
  BEAM_INFO_CMD :: string
  ARRAY_MAP :: "string \<rightharpoonup> pyval"
  BAND_CODES :: "string \<rightharpoonup> pyval"

definition shipped_messages :: system_messages where
  "shipped_messages =
     \<lparr> POWER_ON_CMD = [], POWER_OFF_CMD = [], BAND_CONFIG_CMD = [], CHANNEL_CONFIG_CMD = [],
       BPL_ATTEN_CMD = [], IF_ATTEN_CMD = [], ARRAY_STEER_CMD = [], ARRAY_RF_ENABLE_CMD = [],
       POSE_CMD = [], POINTING_GEN_CMD = [], MODEM_IF_CMD = [], BEAM_INFO_CMD = [],
       ARRAY_MAP = Map.empty, BAND_CODES = Map.empty \<rparr>"

definition vint :: "int \<Rightarrow> pyval" where
  "vint i = VNum (PyInt i)"

text \<open>\<open>int(enable)\<close>.\<close>

definition int_of_bool :: "bool \<Rightarrow> int" where
  "int_of_bool b = (if b then 1 else 0)"

definition get_pose_commands :: "env \<Rightarrow> system_messages \<Rightarrow> pynum \<Rightarrow> error + string list" where
  "get_pose_commands ev cls pitch =
     sum_bind (str_format ev (POSE_CMD cls)
                 [(''roll'', vint 0), (''pitch'', VNum pitch), (''yaw'', vint 0),
                  (''x'', vint 0), (''y'', vint 0)])
       (\<lambda>pose. Inr [pose, POINTING_GEN_CMD cls])"

definition get_phased_array_commands ::
    "env \<Rightarrow> system_messages \<Rightarrow> string \<Rightarrow> pynum \<Rightarrow> pynum \<Rightarrow> pynum \<Rightarrow> int \<Rightarrow> pynum \<Rightarrow> bool
       \<Rightarrow> error + string list" where
  "get_phased_array_commands ev cls phased_array phi theta gain freq_hz pol enable =
     sum_bind (str_format ev (ARRAY_STEER_CMD cls)
                 [(''phased_array'', VStr phased_array), (''phi'', VNum phi), (''theta'', VNum theta),
                  (''gain'', VNum gain), (''freq_hz'', vint freq_hz), (''pol'', VNum pol),
                  (''enable'', vint (int_of_bool enable))])
       (\<lambda>steer.
     sum_bind (str_format ev (ARRAY_RF_ENABLE_CMD cls)
                 [(''phased_array'', VStr phased_array), (''enable'', vint (int_of_bool enable))])
       (\<lambda>rf_enable. Inr [steer, rf_enable]))"

text \<open>The parameter names of \<open>get_phased_array_commands\<close>, as a keyword call may use them.\<close>

definition get_phased_array_commands_params :: "string list" where
  "get_phased_array_commands_params =
     [''phased_array'', ''phi'', ''theta'', ''gain'', ''freq_hz'', ''pol'', ''enable'']"

definition get_pointing_commands ::
    "env \<Rightarrow> system_messages \<Rightarrow> int \<Rightarrow> pynum \<Rightarrow> pynum \<Rightarrow> pynum \<Rightarrow> bool \<Rightarrow> error + string list" where
  "get_pointing_commands ev cls freq_hz az el pol enable =
     sum_bind (str_format ev (MODEM_IF_CMD cls)
                 [(''freq_hz'', vint freq_hz), (''enable'', vint (int_of_bool enable))])
       (\<lambda>modem_if.
     sum_bind (str_format ev (BEAM_INFO_CMD cls)
                 [(''az'', VNum az), (''el'', VNum el), (''freq_hz'', vint freq_hz),
                  (''pol'', VNum pol), (''enable'', vint (int_of_bool enable))])
       (\<lambda>beam_info. Inr [modem_if, beam_info, POINTING_GEN_CMD cls]))"

section \<open>ArrayController\<close>

text \<open>
  \<open>_get_default_attenuation_codes\<close>: four times \<open>to_attenuation_code(0.0, 1.6)\<close> for
  the arrays and once \<open>to_attenuation_code(0.0, 0.0)\<close>.
\<close>

definition get_default_attenuation_codes :: "error + int list \<times> int list" where
  "get_default_attenuation_codes =
     sum_bind (sum_map (\<lambda>_. to_attenuation_code (float_literal 0) (float_literal (16 / 10)))
                 (py_range 4)) (\<lambda>atten_values_arrays.
     sum_bind (to_attenuation_code (float_literal 0) (float_literal 0)) (\<lambda>atten_code_sm.
     Inr (atten_values_arrays, [atten_code_sm])))"

text \<open>
  The band, channel and attenuation commands. \<open>_get_rx_atten_commands\<close> and the
  \<open>ARRAY_INTERFACE == ""\<close> branch of \<open>control_array\<close> build them with the same lines,
  in this order: \<open>BAND_CODES['L']\<close> is looked up first (KeyError when absent), then the
  templates are formatted one after the other.
\<close>

definition atten_command_block ::
    "env \<Rightarrow> config \<Rightarrow> system_messages \<Rightarrow> int \<Rightarrow> int list \<times> int list \<Rightarrow> error + string list" where
  "atten_command_block ev cfg cls f_hz atten =
     (let f_khz = f_hz div 1000; f_if_khz = MODEM_FREQ cfg div 1000 in
      sum_bind (dict_get (BAND_CODES cls) ''L'') (\<lambda>band_code.
      sum_bind (str_format ev (BAND_CONFIG_CMD cls)
                  [(''channel'', vint 0), (''band_code'', band_code)]) (\<lambda>band.
      sum_bind (str_format ev (CHANNEL_CONFIG_CMD cls)
                  [(''channel'', vint 0), (''freq_khz'', vint f_khz),
                   (''if_freq_khz'', vint f_if_khz)]) (\<lambda>channel.
      sum_bind (sum_map (\<lambda>i. sum_bind (list_get (fst atten) i) (\<lambda>code.
                   str_format ev (BPL_ATTEN_CMD cls)
                     [(''channel'', vint 0), (''array'', vint i), (''atten_code'', vint code)]))
                  (py_range 4)) (\<lambda>bpl.
      sum_bind (list_get (snd atten) 0) (\<lambda>if_code.
      sum_bind (str_format ev (IF_ATTEN_CMD cls)
                  [(''channel'', vint 0), (''atten_code'', vint if_code)]) (\<lambda>if_atten.
      Inr ([band, channel] @ bpl @ [if_atten]))))))))"

definition get_rx_atten_commands ::
    "env \<Rightarrow> config \<Rightarrow> system_messages \<Rightarrow> int \<Rightarrow> int list \<times> int list \<Rightarrow> error + string list" where
  "get_rx_atten_commands ev cfg cls f_hz atten = atten_command_block ev cfg cls f_hz atten"

definition setup_array :: "env \<Rightarrow> config \<Rightarrow> system_messages \<Rightarrow> int \<Rightarrow> int \<Rightarrow> int \<Rightarrow> unit exec" where
  "setup_array ev cfg cls ku_freq azimuth elevation =
     (if ARRAY_INTERFACE cfg \<noteq> [] then exec_return ()
      else
        exec_bind (exec_lift get_default_attenuation_codes) (\<lambda>atten_codes.
        exec_bind (exec_lift (get_rx_atten_commands ev cfg cls ku_freq atten_codes))
          (\<lambda>atten_commands.
        exec_bind (send_commands ev atten_commands) (\<lambda>_.
        exec_bind (exec_lift (get_pointing_commands ev cls ku_freq (PyInt azimuth) (PyInt elevation)
                                (PyInt (POL_ANGLE cfg)) True))
          (\<lambda>pointing_commands. send_commands ev pointing_commands)))))"

text \<open>\<open>_control_pose\<close>, the only pose method \<open>ArrayController\<close> defines.\<close>

definition underscore_control_pose :: "env \<Rightarrow> system_messages \<Rightarrow> pynum \<Rightarrow> pynum \<Rightarrow> unit exec" where
  "underscore_control_pose ev cls phi_angle theta_angle =
     (let pitch = (if 90 < num_val phi_angle then theta_angle else int_minus 360 theta_angle) in
      exec_bind (exec_lift (get_pose_commands ev cls pitch)) (send_commands ev))"

text \<open>
  The \<open>ARRAY_INTERFACE == ""\<close> branch of \<open>control_array\<close>. The loop over the four
  arrays calls \<open>get_phased_array_commands(array=array, phi=..., theta=..., gain=0,
  freq_hz=..., pol=...)\<close>: a call by keywords, which raises TypeError unless every
  keyword is a parameter of the callee.
\<close>

definition control_array_keywords :: "string list" where
  "control_array_keywords = [''array'', ''phi'', ''theta'', ''gain'', ''freq_hz'', ''pol'']"

definition control_array_local ::
    "env \<Rightarrow> config \<Rightarrow> system_messages \<Rightarrow> int \<Rightarrow> pynum \<Rightarrow> pynum \<Rightarrow> error + string list" where
  "control_array_local ev cfg cls ku_freq phi_angle theta_angle =
     sum_bind get_default_attenuation_codes (\<lambda>atten_codes.
     sum_bind (atten_command_block ev cfg cls ku_freq atten_codes) (\<lambda>commands.
     sum_bind (sum_map (\<lambda>array.
                  if set control_array_keywords \<subseteq> set get_phased_array_commands_params
                  then get_phased_array_commands ev cls array phi_angle theta_angle (PyInt 0)
                         ku_freq (PyInt (POL_ANGLE cfg)) True
                  else Inl TypeError)
                 [[], [], [], []]) (\<lambda>array_commands.
     Inr (commands @ concat array_commands))))"

definition control_array :: "env \<Rightarrow> config \<Rightarrow> system_messages \<Rightarrow> int \<Rightarrow> pynum \<Rightarrow> pynum \<Rightarrow> unit exec" where
  "control_array ev cfg cls ku_freq phi_angle theta_angle =
     (if ARRAY_INTERFACE cfg = []
      then exec_bind (exec_lift (control_array_local ev cfg cls ku_freq phi_angle theta_angle))
             (send_commands ev)
      else underscore_control_pose ev cls phi_angle theta_angle)"

text \<open>
  An object handed to \<open>run_sweep_sequence\<close> as \<open>array_ctrl\<close>: the methods the sequence
  asks it for, \<open>None\<close> where the object has no attribute of that name. An
  \<open>ArrayController\<close> has \<open>setup_array\<close> and \<open>control_array\<close>, and no \<open>control_pose\<close>.
\<close>

record array_ctrl =
  obj_setup_array :: "(int \<Rightarrow> int \<Rightarrow> int \<Rightarrow> unit exec) option"
  obj_control_array :: "(int \<Rightarrow> pynum \<Rightarrow> pynum \<Rightarrow> unit exec) option"
  obj_control_pose :: "(pynum \<Rightarrow> pynum \<Rightarrow> unit exec) option"

definition ArrayController :: "env \<Rightarrow> config \<Rightarrow> system_messages \<Rightarrow> array_ctrl" where
  "ArrayController ev cfg cls =
     \<lparr> obj_setup_array = Some (setup_array ev cfg cls),
       obj_control_array = Some (control_array ev cfg cls),
       obj_control_pose = None \<rparr>"

text \<open>Looking a method up on an object and calling it.\<close>

definition call_method :: "'m option \<Rightarrow> ('m \<Rightarrow> 'a exec) \<Rightarrow> 'a exec" where
  "call_method attribute call =
     (case attribute of None \<Rightarrow> exec_raise AttributeError | Some m \<Rightarrow> call m)"

section \<open>ChamberController\<close>

text \<open>
  \<open>random.randint(a, b)\<close> returns an integer \<open>N\<close> with \<open>a \<le> N \<le> b\<close>, both ends
  included; every such value is the outcome of some draw.
\<close>

definition randint :: "int \<Rightarrow> int \<Rightarrow> nat \<Rightarrow> int" where
  "randint a b draw = a + int (draw mod nat (b - a + 1))"

definition random_angles :: "env \<Rightarrow> int \<Rightarrow> int \<Rightarrow> nat \<Rightarrow> pynum list exec" where
  "random_angles ev a b num = (\<lambda>w.
     (Inr (map (\<lambda>k. PyInt (randint a b (random_draw ev (draws_used w + k)))) [0..<num]),
      w\<lparr>draws_used := draws_used w + num\<rparr>))"

definition select_phi_angles :: "env \<Rightarrow> config \<Rightarrow> pynum list exec" where
  "select_phi_angles ev cfg =
     (if PHI_RANGE_RANDOM cfg then random_angles ev 0 360 10
      else exec_return (PHI_RANGE cfg))"

definition select_theta_angles :: "env \<Rightarrow> config \<Rightarrow> pynum list exec" where
  "select_theta_angles ev cfg =
     (if THETA_RANGE_RANDOM cfg then random_angles ev 5 50 10
      else exec_return (THETA_RANGE cfg))"

text \<open>
  \<open>_generate_sweep_name\<close>. The name is put together from the timestamp and from the
  strings of the two frequencies in GHz (a true division, so a float) and of the two
  angles, each with its full stops replaced.
\<close>

definition sweep_name_of ::
    "env \<Rightarrow> config \<Rightarrow> string \<Rightarrow> int \<Rightarrow> int \<Rightarrow> pynum \<Rightarrow> pynum \<Rightarrow> string" where
  "sweep_name_of ev cfg timestamp ku_freq l_band_freq phi_angle theta_angle =
     (let ku_freq_string = replace_dot (float_str ev (of_int ku_freq / 1000000000));
          l_band_freq_string = replace_dot (float_str ev (of_int l_band_freq / 1000000000));
          phi_angle_string = replace_dot (str_num (float_str ev) phi_angle);
          theta_angle_string = replace_dot (str_num (float_str ev) theta_angle)
      in timestamp @ ''_'' @ ARRAY_INTERFACE cfg @ ''_'' @ SYSTEM_CONFIGURATION cfg @ ''_''
         @ ''Ku_Freq_'' @ ku_freq_string @ ''GHz_''
         @ ''L_Freq_'' @ l_band_freq_string @ ''GHz_''
         @ ''Phi_'' @ phi_angle_string @ ''_''
         @ ''Theta_'' @ theta_angle_string)"

definition generate_sweep_name ::
    "env \<Rightarrow> config \<Rightarrow> int \<Rightarrow> int \<Rightarrow> pynum \<Rightarrow> pynum \<Rightarrow> string exec" where
  "generate_sweep_name ev cfg ku_freq l_band_freq phi_angle theta_angle = (\<lambda>w.
     (Inr (sweep_name_of ev cfg (clock_now ev (clock_reads w)) ku_freq l_band_freq
             phi_angle theta_angle),
      w\<lparr>clock_reads := clock_reads w + 1\<rparr>))"

text \<open>\<open>self.sweep_runner.run_sweep_test_swt(angles_list=..., save_path=..., sPar=False)\<close>.\<close>

definition run_sweep_test_swt :: "env \<Rightarrow> sweep_angles \<Rightarrow> string \<Rightarrow> bool \<Rightarrow> unit exec" where
  "run_sweep_test_swt ev angles_list save_path sPar = (\<lambda>w.
     let w' = w\<lparr>runs := runs w + 1,
                trace := trace w @ [Measured (sweep_name w) angles_list save_path sPar]\<rparr>
     in case sweep_runner ev (runs w) of
          RunnerRaised \<Rightarrow> (Inl MeasurementError, w')
        | _ \<Rightarrow> (Inr (), w'))"

definition run_chamber_sweep ::
    "env \<Rightarrow> config \<Rightarrow> int \<Rightarrow> int \<Rightarrow> pynum \<Rightarrow> pynum \<Rightarrow> sweep_angles \<Rightarrow> unit exec" where
  "run_chamber_sweep ev cfg ku_freq l_band_freq theta_angle phi_angle angles =
     exec_bind (generate_sweep_name ev cfg ku_freq l_band_freq phi_angle theta_angle) (\<lambda>name.
     exec_bind (\<lambda>w. (Inr (), w\<lparr>sweep_name := name\<rparr>)) (\<lambda>_.
     run_sweep_test_swt ev angles (PLOT_SAVE_PATH cfg) False))"

definition perform_sweep ::
    "env \<Rightarrow> config \<Rightarrow> bool \<Rightarrow> int \<Rightarrow> int \<Rightarrow> pynum \<Rightarrow> pynum \<Rightarrow> bool exec" where
  "perform_sweep ev cfg direction ku_freq l_band_freq phi_angle theta_angle =
     (let angles = calculate_sweep_angles cfg direction phi_angle theta_angle in
      exec_bind (run_chamber_sweep ev cfg ku_freq l_band_freq theta_angle phi_angle angles) (\<lambda>_.
      exec_return (if SWEEP_BOTH_DIRECTIONS cfg then \<not> direction else direction)))"

text \<open>\<open>self.direction_forward = ...\<close>, noted in the log.\<close>

definition set_direction :: "bool \<Rightarrow> unit exec" where
  "set_direction d = (\<lambda>w.
     (Inr (), w\<lparr>direction_forward := d, direction_log := direction_log w @ [d]\<rparr>))"

text \<open>The body of the inner loop of \<open>run_sweep_sequence\<close>: one sweep point.\<close>

definition sweep_point ::
    "env \<Rightarrow> config \<Rightarrow> array_ctrl \<Rightarrow> int \<Rightarrow> int \<Rightarrow> pynum \<Rightarrow> pynum \<Rightarrow> unit exec" where
  "sweep_point ev cfg ctrl ku_freq l_band_freq phi_angle theta_angle =
     exec_bind
       (if ARRAY_INTERFACE cfg = ''app_cli_message_forewarding''
        then call_method (obj_control_array ctrl) (\<lambda>m. m ku_freq phi_angle theta_angle)
        else call_method (obj_control_pose ctrl) (\<lambda>m. m phi_angle theta_angle))
       (\<lambda>_. exec_bind
          (\<lambda>w. perform_sweep ev cfg (direction_forward w) ku_freq l_band_freq
                  phi_angle theta_angle w)
          set_direction)"

definition run_sweep_sequence :: "env \<Rightarrow> config \<Rightarrow> array_ctrl \<Rightarrow> int \<Rightarrow> int \<Rightarrow> unit exec" where
  "run_sweep_sequence ev cfg ctrl ku_freq l_band_freq =
     exec_bind
       (if ARRAY_INTERFACE cfg = ''app_cli_pointing_generator''
        then call_method (obj_setup_array ctrl) (\<lambda>m. m ku_freq 0 90)
        else exec_return ())
       (\<lambda>_. exec_bind (select_phi_angles ev cfg) (\<lambda>phi_angles.
          for_each phi_angles (\<lambda>phi_angle.
            exec_bind (select_theta_angles ev cfg) (\<lambda>theta_angles.
              for_each theta_angles (\<lambda>theta_angle.
                sweep_point ev cfg ctrl ku_freq l_band_freq phi_angle theta_angle)))))"

text \<open>The state a fresh \<open>ChamberController\<close> starts from, before any collaborator is used.\<close>

definition initial_world :: world where
  "initial_world =
     \<lparr> direction_forward = True, sweep_name = ''Default_file_name'', trace = [],
       direction_log = [], draws_used = 0, clock_reads = 0, sends = 0, runs = 0 \<rparr>"

section \<open>Vocabulary of the statements\<close>

text \<open>The command lists handed to the serial link, and the measurements, in a trace.\<close>

fun sent_commands :: "event list \<Rightarrow> string list list" where
  "sent_commands [] = []"
| "sent_commands (Sent commands # es) = commands # sent_commands es"
| "sent_commands (Measured name angles path spar # es) = sent_commands es"

fun measurements :: "event list \<Rightarrow> (string \<times> sweep_angles) list" where
  "measurements [] = []"
| "measurements (Sent commands # es) = measurements es"
| "measurements (Measured name angles path spar # es) = (name, angles) # measurements es"

text \<open>
  The direction flag after \<open>n\<close> completed points, starting from \<open>d\<close>, and the values
  assigned to it on the way.
\<close>

definition flag_after :: "config \<Rightarrow> bool \<Rightarrow> nat \<Rightarrow> bool" where
  "flag_after cfg d n = (if SWEEP_BOTH_DIRECTIONS cfg \<and> odd n then \<not> d else d)"

definition alternation :: "config \<Rightarrow> bool \<Rightarrow> nat \<Rightarrow> bool list" where
  "alternation cfg d n = map (\<lambda>k. flag_after cfg d (Suc k)) [0..<n]"

text \<open>How many of the runner's calls number \<open>a\<close> to \<open>b - 1\<close> returned.\<close>

definition returned :: "env \<Rightarrow> nat \<Rightarrow> nat \<Rightarrow> nat" where
  "returned ev a b = length (filter (\<lambda>k. sweep_runner ev k \<noteq> RunnerRaised) [a..<b])"

definition progress :: "env \<Rightarrow> config \<Rightarrow> world \<Rightarrow> world \<Rightarrow> bool" where
  "progress ev cfg w w' \<longleftrightarrow>
     (\<exists>n. direction_log w' = direction_log w @ alternation cfg (direction_forward w) n
        \<and> direction_forward w' = flag_after cfg (direction_forward w) n
        \<and> runs w \<le> runs w'
        \<and> n = returned ev (runs w) (runs w'))"

text \<open>
  Collaborators for concrete runs. On a template without braces \<open>str.format\<close> returns
  the template itself, whatever the keyword arguments; \<open>bench_messages\<close> has only such
  templates. The floats printed in the runs below are \<open>11.6\<close> and \<open>1.5\<close>.
\<close>

definition bench_env :: env where
  "bench_env =
     \<lparr> str_format = (\<lambda>template kwargs. Inr template),
       float_str = (\<lambda>r. if r = 116 / 10 then ''11.6'' else if r = 15 / 10 then ''1.5'' else ''0.0''),
       random_draw = (\<lambda>k. 37 * k),
       clock_now = (\<lambda>k. ''2024-10-16_12-00-00''),
       serial_link = (\<lambda>k. Acked),
       sweep_runner = (\<lambda>k. Completed) \<rparr>"

definition bench_messages :: system_messages where
  "bench_messages =
     \<lparr> POWER_ON_CMD = ''ON'', POWER_OFF_CMD = ''OFF'', BAND_CONFIG_CMD = ''BAND'',
       CHANNEL_CONFIG_CMD = ''CHAN'', BPL_ATTEN_CMD = ''BPL'', IF_ATTEN_CMD = ''IFATT'',
       ARRAY_STEER_CMD = ''STEER'', ARRAY_RF_ENABLE_CMD = ''RF'', POSE_CMD = ''POSE'',
       POINTING_GEN_CMD = ''POINT'', MODEM_IF_CMD = ''MODEM'', BEAM_INFO_CMD = ''BEAM'',
       ARRAY_MAP = Map.empty, BAND_CODES = [''L'' \<mapsto> vint 1] \<rparr>"

definition forwarding_config :: config where
  "forwarding_config = shipped_config\<lparr>ARRAY_INTERFACE := ''app_cli_message_forewarding''\<rparr>"

text \<open>
  The command list \<open>_control_pose\<close> hands to the serial link for a point, and the state
  one sweep point leaves behind in the forwarding mode when neither the link nor the
  runner raises.
\<close>

definition pose_commands_of :: "env \<Rightarrow> system_messages \<Rightarrow> pynum \<Rightarrow> pynum \<Rightarrow> string list" where
  "pose_commands_of ev cls phi theta =
     (case get_pose_commands ev cls (if 90 < num_val phi then theta else int_minus 360 theta) of
        Inl e \<Rightarrow> [] | Inr commands \<Rightarrow> commands)"

definition after_point ::
    "env \<Rightarrow> config \<Rightarrow> system_messages \<Rightarrow> int \<Rightarrow> int \<Rightarrow> world \<Rightarrow> pynum \<times> pynum \<Rightarrow> world" where
  "after_point ev cfg cls ku l w point =
     (let phi = fst point; theta = snd point;
          name = sweep_name_of ev cfg (clock_now ev (clock_reads w)) ku l phi theta;
          d = (if SWEEP_BOTH_DIRECTIONS cfg then \<not> direction_forward w else direction_forward w)
      in w\<lparr>direction_forward := d,
           sweep_name := name,
           trace := trace w @ [Sent (pose_commands_of ev cls phi theta),
                               Measured name
                                 (calculate_sweep_angles cfg (direction_forward w) phi theta)
                                 (PLOT_SAVE_PATH cfg) False],
           direction_log := direction_log w @ [d],
           clock_reads := clock_reads w + 1,
           sends := sends w + 1,
           runs := runs w + 1\<rparr>)"

text \<open>
  The measurements a list of points produces from a given clock position and direction
  flag, point by point.
\<close>

definition expected_measurements ::
    "env \<Rightarrow> config \<Rightarrow> int \<Rightarrow> int \<Rightarrow> nat \<Rightarrow> bool \<Rightarrow> (pynum \<times> pynum) list
       \<Rightarrow> (string \<times> sweep_angles) list" where
  "expected_measurements ev cfg ku l clock d points =
     map (\<lambda>(k, point).
            (sweep_name_of ev cfg (clock_now ev (clock + k)) ku l (fst point) (snd point),
             calculate_sweep_angles cfg (flag_after cfg d k) (fst point) (snd point)))
         (enumerate 0 points)"

text \<open>
  A run in which every dispatch goes unacknowledged and every measurement reports an
  error, over two \<open>phi\<close> and two \<open>theta\<close> values with both sweep directions enabled.
\<close>

definition noisy_env :: env where
  "noisy_env = bench_env\<lparr>serial_link := (\<lambda>k. NoResponse), sweep_runner := (\<lambda>k. ReportedError)\<rparr>"

definition two_way_config :: config where
  "two_way_config =
     forwarding_config\<lparr>SWEEP_BOTH_DIRECTIONS := True,
       PHI_RANGE := [PyInt 0, PyInt 180], THETA_RANGE := [PyInt 0, PyInt 5]\<rparr>"

section \<open>Rotation round trip\<close>

lemma patch_loop_inv:
  assumes "nx \<noteq> 0"
    and "\<forall>i\<in>set idxs. 0 \<le> i \<and> i < int N \<and> matrix_rotation i nx ny rot = Inr (f i)
            \<and> 0 \<le> f i \<and> f i < int N"
    and "distinct idxs" and "inj_on f (set idxs)"
    and "length patches = N" and "length new_patches = N"
  shows "\<exists>out. patch_loop rot nx ny patches idxs new_patches = Inr out \<and> length out = N
           \<and> (\<forall>i\<in>set idxs. out ! nat (f i) = patches ! nat i)
           \<and> (\<forall>j<N. int j \<notin> f ` set idxs \<longrightarrow> out ! j = new_patches ! j)"
  using assms
proof (induction idxs arbitrary: new_patches)
  case Nil
  then show ?case by simp
next
  case (Cons i rest)
  let ?new1 = "new_patches[nat (f i) := patches ! nat i]"
  from Cons.prems have i: "0 \<le> i" "i < int N" "matrix_rotation i nx ny rot = Inr (f i)"
    "0 \<le> f i" "f i < int N" by simp_all
  have src: "py_index patches i = Inr (nat i)"
    using i Cons.prems(5) by (simp add: py_index_def)
  have dst: "py_index new_patches (f i) = Inr (nat (f i))"
    using i Cons.prems(6) by (simp add: py_index_def)
  have step: "patch_loop rot nx ny patches (i # rest) new_patches
                = patch_loop rot nx ny patches rest ?new1"
    using i src dst by simp
  have "\<exists>out. patch_loop rot nx ny patches rest ?new1 = Inr out \<and> length out = N
           \<and> (\<forall>k\<in>set rest. out ! nat (f k) = patches ! nat k)
           \<and> (\<forall>j<N. int j \<notin> f ` set rest \<longrightarrow> out ! j = ?new1 ! j)"
    using Cons.prems by (intro Cons.IH) (simp_all add: inj_on_def)
  then obtain out where out: "patch_loop rot nx ny patches rest ?new1 = Inr out" "length out = N"
      "\<forall>k\<in>set rest. out ! nat (f k) = patches ! nat k"
      "\<forall>j<N. int j \<notin> f ` set rest \<longrightarrow> out ! j = ?new1 ! j"
    by blast
  have fresh: "f i \<notin> f ` set rest"
    using Cons.prems(3,4) by (auto simp: inj_on_def)
  have "nat (f i) < N" using i by linarith
  moreover have "int (nat (f i)) = f i" using i by simp
  ultimately have "out ! nat (f i) = ?new1 ! nat (f i)"
    using out(4) fresh by metis
  also have "\<dots> = patches ! nat i"
    using \<open>nat (f i) < N\<close> Cons.prems(6) by simp
  finally have here: "out ! nat (f i) = patches ! nat i" .
  have other: "\<forall>j<N. int j \<notin> f ` set (i # rest) \<longrightarrow> out ! j = new_patches ! j"
  proof (intro allI impI)
    fix j assume j: "j < N" "int j \<notin> f ` set (i # rest)"
    then have "int j \<notin> f ` set rest" "j \<noteq> nat (f i)" using i by auto
    then show "out ! j = new_patches ! j" using out(4) j(1) by simp
  qed
  show ?case using step out(1,2,3) here other by simp
qed


lemma grid_div_less:
  assumes "0 < n" "0 \<le> i" "i < n * n"
  shows "0 \<le> i div n" "i div n < (n::int)"
proof -
  show "0 \<le> i div n" using assms by (simp add: pos_imp_zdiv_nonneg_iff)
  show "i div n < n"
  proof (rule ccontr)
    assume "\<not> i div n < n"
    then have "n * n \<le> n * (i div n)" using assms(1) by (simp add: mult_left_mono)
    moreover have "0 \<le> i mod n" using assms(1) by simp
    moreover have "i = n * (i div n) + i mod n" by simp
    ultimately show False using assms(3) by linarith
  qed
qed

lemma quarter_turn_grid:
  assumes "0 < n" "0 \<le> i" "i < n * n"
  shows "0 \<le> quarter_turn n i" "quarter_turn n i < n * n"
    "quarter_turn n i mod n = i div n" "quarter_turn n i div n = n - 1 - i mod n"
proof -
  let ?x = "i mod n" and ?y = "i div n"
  have x: "0 \<le> ?x" "?x < n" using assms(1) by simp_all
  have y: "0 \<le> ?y" "?y < n" using grid_div_less[OF assms] .
  have q: "quarter_turn n i = ?y + (n - 1 - ?x) * n" by (simp add: quarter_turn_def)
  show "quarter_turn n i mod n = ?y" unfolding q using y by simp
  have "?y div n = 0" using y by simp
  then show "quarter_turn n i div n = n - 1 - ?x" unfolding q using assms(1) by simp
  have x': "0 \<le> n - 1 - ?x" using x by linarith
  have "0 \<le> (n - 1 - ?x) * n" using x' assms(1) by (intro mult_nonneg_nonneg) simp_all
  then show "0 \<le> quarter_turn n i" unfolding q using y by linarith
  have "(n - 1 - ?x) * n \<le> (n - 1) * n" using x assms(1) by (intro mult_right_mono) linarith+
  then have "?y + (n - 1 - ?x) * n < n + (n - 1) * n" using y by linarith
  then show "quarter_turn n i < n * n" unfolding q by (simp add: algebra_simps)
qed

lemma half_turn_grid:
  assumes "0 < n" "0 \<le> i" "i < n * n"
  shows "0 \<le> half_turn n i" "half_turn n i < n * n"
    "half_turn n i mod n = n - 1 - i mod n" "half_turn n i div n = n - 1 - i div n"
proof -
  let ?x = "i mod n" and ?y = "i div n"
  have x: "0 \<le> ?x" "?x < n" using assms(1) by simp_all
  have y: "0 \<le> ?y" "?y < n" using grid_div_less[OF assms] .
  have q: "half_turn n i = (n - 1 - ?x) + (n - 1 - ?y) * n" by (simp add: half_turn_def)
  have x': "0 \<le> n - 1 - ?x" "n - 1 - ?x < n" using x by linarith+
  show "half_turn n i mod n = n - 1 - ?x" unfolding q using x' by simp
  show "half_turn n i div n = n - 1 - ?y" unfolding q using x' assms(1) by simp
  have y': "0 \<le> n - 1 - ?y" using y by linarith
  have "0 \<le> (n - 1 - ?y) * n" using y' assms(1) by (intro mult_nonneg_nonneg) simp_all
  then show "0 \<le> half_turn n i" unfolding q using x' by linarith
  have "(n - 1 - ?y) * n \<le> (n - 1) * n" using y assms(1) by (intro mult_right_mono) linarith+
  then have "(n - 1 - ?x) + (n - 1 - ?y) * n < n + (n - 1) * n" using x' by linarith
  then show "half_turn n i < n * n" unfolding q by (simp add: algebra_simps)
qed

lemma quarter_turn_four:
  assumes "0 < n" "0 \<le> i" "i < n * n"
  shows "quarter_turn n (quarter_turn n (quarter_turn n (quarter_turn n i))) = i"
proof -
  let ?a = "quarter_turn n i"
  let ?b = "quarter_turn n ?a"
  let ?c = "quarter_turn n ?b"
  let ?d = "quarter_turn n ?c"
  note A = quarter_turn_grid[OF assms]
  note B = quarter_turn_grid[OF assms(1) A(1,2)]
  note C = quarter_turn_grid[OF assms(1) B(1,2)]
  note D = quarter_turn_grid[OF assms(1) C(1,2)]
  have "?d mod n = i mod n" using A(3,4) B(3,4) C(3,4) D(3) by simp
  moreover have "?d div n = i div n" using A(3,4) B(3,4) C(3,4) D(4) by simp
  ultimately show ?thesis by (metis mult_div_mod_eq)
qed

lemma half_turn_two:
  assumes "0 < n" "0 \<le> i" "i < n * n"
  shows "half_turn n (half_turn n i) = i"
proof -
  note A = half_turn_grid[OF assms]
  note B = half_turn_grid[OF assms(1) A(1,2)]
  have "half_turn n (half_turn n i) mod n = i mod n" using A(3) B(3) by simp
  moreover have "half_turn n (half_turn n i) div n = i div n" using A(4) B(4) by simp
  ultimately show ?thesis by (metis mult_div_mod_eq)
qed

lemma matrix_rotation_quarter:
  "n \<noteq> 0 \<Longrightarrow> matrix_rotation i n n ROT_90 = Inr (quarter_turn n i)"
  by (simp add: matrix_rotation_def quarter_turn_def ROT_90_def Let_def)

lemma matrix_rotation_half:
  "n \<noteq> 0 \<Longrightarrow> matrix_rotation i n n ROT_180 = Inr (half_turn n i)"
  by (simp add: matrix_rotation_def half_turn_def ROT_180_def ROT_90_def Let_def)


lemma set_py_range: "set (py_range m) = {0..<m}"
proof (rule set_eqI)
  fix x
  show "x \<in> set (py_range m) \<longleftrightarrow> x \<in> {0..<m}"
  proof
    assume "x \<in> set (py_range m)"
    then obtain k where "x = int k" "k < nat m" by (auto simp: py_range_def)
    then show "x \<in> {0..<m}" by simp
  next
    assume "x \<in> {0..<m}"
    then have "x = int (nat x)" "nat x < nat m" by simp_all
    then show "x \<in> set (py_range m)" unfolding py_range_def by (metis atLeast0LessThan imageI lessThan_iff set_map set_upt)
  qed
qed

lemma distinct_py_range: "distinct (py_range m)"
  by (simp add: py_range_def distinct_map inj_on_def)

lemma patch_pos_update_grid:
  assumes n: "0 < n" and len: "length patches = nat (n * n)"
    and F: "\<forall>i. 0 \<le> i \<and> i < n * n \<longrightarrow>
              matrix_rotation i n n rot = Inr (f i) \<and> 0 \<le> f i \<and> f i < n * n"
    and inj: "inj_on f {0..<n * n}"
  shows "\<exists>out. patch_pos_update rot n n patches = Inr out \<and> length out = nat (n * n)
           \<and> (\<forall>i. 0 \<le> i \<and> i < n * n \<longrightarrow> out ! nat (f i) = patches ! nat i)"
proof -
  have nn: "0 \<le> n * n" using n by simp
  have "\<exists>out. patch_loop rot n n patches (py_range (n * n)) (replicate (length patches) None) = Inr out
           \<and> length out = nat (n * n)
           \<and> (\<forall>i\<in>set (py_range (n * n)). out ! nat (f i) = patches ! nat i)
           \<and> (\<forall>j<nat (n * n). int j \<notin> f ` set (py_range (n * n))
                  \<longrightarrow> out ! j = replicate (length patches) None ! j)"
  proof (rule patch_loop_inv)
    show "n \<noteq> 0" using n by simp
    show "\<forall>i\<in>set (py_range (n * n)). 0 \<le> i \<and> i < int (nat (n * n))
            \<and> matrix_rotation i n n rot = Inr (f i) \<and> 0 \<le> f i \<and> f i < int (nat (n * n))"
      using F nn by (simp add: set_py_range)
    show "distinct (py_range (n * n))" by (rule distinct_py_range)
    show "inj_on f (set (py_range (n * n)))" using inj by (simp add: set_py_range)
    show "length patches = nat (n * n)" by (rule len)
    show "length (replicate (length patches) None) = nat (n * n)" using len by simp
  qed
  then show ?thesis by (auto simp: patch_pos_update_def set_py_range)
qed

lemma inj_on_quarter_turn: "0 < n \<Longrightarrow> inj_on (quarter_turn n) {0..<n * n}"
proof (rule inj_onI)
  fix a b assume n: "0 < n" and a: "a \<in> {0..<n * n}" and b: "b \<in> {0..<n * n}"
    and eq: "quarter_turn n a = quarter_turn n b"
  have "a = quarter_turn n (quarter_turn n (quarter_turn n (quarter_turn n a)))"
    using quarter_turn_four[of n a] n a by simp
  also have "\<dots> = quarter_turn n (quarter_turn n (quarter_turn n (quarter_turn n b)))"
    by (simp only: eq)
  also have "\<dots> = b" using quarter_turn_four[of n b] n b by simp
  finally show "a = b" .
qed

lemma inj_on_half_turn: "0 < n \<Longrightarrow> inj_on (half_turn n) {0..<n * n}"
proof (rule inj_onI)
  fix a b assume n: "0 < n" and a: "a \<in> {0..<n * n}" and b: "b \<in> {0..<n * n}"
    and eq: "half_turn n a = half_turn n b"
  have "a = half_turn n (half_turn n a)" using half_turn_two[of n a] n a by simp
  also have "\<dots> = half_turn n (half_turn n b)" by (simp only: eq)
  also have "\<dots> = b" using half_turn_two[of n b] n b by simp
  finally show "a = b" .
qed

lemma update_quarter:
  assumes n: "0 < n" and len: "length patches = nat (n * n)"
  shows "\<exists>out. patch_pos_update ROT_90 n n patches = Inr out \<and> length out = nat (n * n)
           \<and> (\<forall>i. 0 \<le> i \<and> i < n * n \<longrightarrow> out ! nat (quarter_turn n i) = patches ! nat i)"
  using n len
  by (intro patch_pos_update_grid inj_on_quarter_turn)
     (simp_all add: matrix_rotation_quarter quarter_turn_grid)

lemma update_half:
  assumes n: "0 < n" and len: "length patches = nat (n * n)"
  shows "\<exists>out. patch_pos_update ROT_180 n n patches = Inr out \<and> length out = nat (n * n)
           \<and> (\<forall>i. 0 \<le> i \<and> i < n * n \<longrightarrow> out ! nat (half_turn n i) = patches ! nat i)"
  using n len
  by (intro patch_pos_update_grid inj_on_half_turn)
     (simp_all add: matrix_rotation_half half_turn_grid)

text \<open>
  Claim C10. For every \<open>n \<times> n\<close> grid of patches with \<open>n \<ge> 1\<close> (a list of \<open>n * n\<close> cells),
  applying \<open>patch_pos_update\<close> with \<open>ROT_90\<close> four times in succession, or with
  \<open>ROT_180\<close> twice in succession, raises nothing and returns the list it started from:
  every patch is back at its original index.
\<close>

theorem rotation_round_trip:
  assumes n: "1 \<le> n" and len: "length patches = nat (n * n)"
  shows "repeat_update 4 ROT_90 n n patches = Inr patches
         \<and> repeat_update 2 ROT_180 n n patches = Inr patches"
proof
  have n0: "0 < n" using n by simp
  obtain p1 where p1: "patch_pos_update ROT_90 n n patches = Inr p1" "length p1 = nat (n * n)"
      "\<forall>i. 0 \<le> i \<and> i < n * n \<longrightarrow> p1 ! nat (quarter_turn n i) = patches ! nat i"
    using update_quarter[OF n0 len] by blast
  obtain p2 where p2: "patch_pos_update ROT_90 n n p1 = Inr p2" "length p2 = nat (n * n)"
      "\<forall>i. 0 \<le> i \<and> i < n * n \<longrightarrow> p2 ! nat (quarter_turn n i) = p1 ! nat i"
    using update_quarter[OF n0 p1(2)] by blast
  obtain p3 where p3: "patch_pos_update ROT_90 n n p2 = Inr p3" "length p3 = nat (n * n)"
      "\<forall>i. 0 \<le> i \<and> i < n * n \<longrightarrow> p3 ! nat (quarter_turn n i) = p2 ! nat i"
    using update_quarter[OF n0 p2(2)] by blast
  obtain p4 where p4: "patch_pos_update ROT_90 n n p3 = Inr p4" "length p4 = nat (n * n)"
      "\<forall>i. 0 \<le> i \<and> i < n * n \<longrightarrow> p4 ! nat (quarter_turn n i) = p3 ! nat i"
    using update_quarter[OF n0 p3(2)] by blast
  have "p4 = patches"
  proof (rule nth_equalityI)
    show "length p4 = length patches" using p4(2) len by simp
    fix k assume "k < length p4"
    then have k: "0 \<le> int k" "int k < n * n" using p4(2) by simp_all
    let ?a = "quarter_turn n (int k)"
    let ?b = "quarter_turn n ?a"
    let ?c = "quarter_turn n ?b"
    note A = quarter_turn_grid(1,2)[OF n0 k]
    note B = quarter_turn_grid(1,2)[OF n0 A]
    note C = quarter_turn_grid(1,2)[OF n0 B]
    have "p4 ! nat (quarter_turn n ?c) = p3 ! nat ?c" using p4(3) C by blast
    also have "\<dots> = p2 ! nat ?b" using p3(3) B by blast
    also have "\<dots> = p1 ! nat ?a" using p2(3) A by blast
    also have "\<dots> = patches ! nat (int k)" using p1(3) k by blast
    finally show "p4 ! k = patches ! k"
      using quarter_turn_four[OF n0 k] by simp
  qed
  then show "repeat_update 4 ROT_90 n n patches = Inr patches"
    using p1(1) p2(1) p3(1) p4(1) by (simp add: eval_nat_numeral)
next
  have n0: "0 < n" using n by simp
  obtain p1 where p1: "patch_pos_update ROT_180 n n patches = Inr p1" "length p1 = nat (n * n)"
      "\<forall>i. 0 \<le> i \<and> i < n * n \<longrightarrow> p1 ! nat (half_turn n i) = patches ! nat i"
    using update_half[OF n0 len] by blast
  obtain p2 where p2: "patch_pos_update ROT_180 n n p1 = Inr p2" "length p2 = nat (n * n)"
      "\<forall>i. 0 \<le> i \<and> i < n * n \<longrightarrow> p2 ! nat (half_turn n i) = p1 ! nat i"
    using update_half[OF n0 p1(2)] by blast
  have "p2 = patches"
  proof (rule nth_equalityI)
    show "length p2 = length patches" using p2(2) len by simp
    fix k assume "k < length p2"
    then have k: "0 \<le> int k" "int k < n * n" using p2(2) by simp_all
    note A = half_turn_grid(1,2)[OF n0 k]
    have "p2 ! nat (half_turn n (half_turn n (int k))) = p1 ! nat (half_turn n (int k))"
      using p2(3) A by blast
    also have "\<dots> = patches ! nat (int k)" using p1(3) k by blast
    finally show "p2 ! k = patches ! k"
      using half_turn_two[OF n0 k] by simp
  qed
  then show "repeat_update 2 ROT_180 n n patches = Inr patches"
    using p1(1) p2(1) by (simp add: eval_nat_numeral)
qed

theorem rotation_round_trip_witness:
  "(1::int) \<le> 2 \<and> length [Some ''A'', Some ''B'', Some ''C'', Some ''D''] = nat (2 * 2)
   \<and> patch_pos_update ROT_90 2 2 [Some ''A'', Some ''B'', Some ''C'', Some ''D'']
       = Inr [Some ''B'', Some ''D'', Some ''A'', Some ''C'']
   \<and> repeat_update 4 ROT_90 2 2 [Some ''A'', Some ''B'', Some ''C'', Some ''D'']
       = Inr [Some ''A'', Some ''B'', Some ''C'', Some ''D'']
   \<and> repeat_update 2 ROT_180 2 2 [Some ''A'', Some ''B'', Some ''C'', Some ''D'']
       = Inr [Some ''A'', Some ''B'', Some ''C'', Some ''D'']"
proof -
  have h1: "(1::int) \<le> 2" by simp
  have h2: "length [Some ''A'', Some ''B'', Some ''C'', Some ''D''] = nat (2 * 2)" by simp
  have step: "patch_pos_update ROT_90 2 2 [Some ''A'', Some ''B'', Some ''C'', Some ''D'']
       = Inr [Some ''B'', Some ''D'', Some ''A'', Some ''C'']"
    by code_simp
  show ?thesis using rotation_round_trip[OF h1 h2] h1 h2 step by simp
qed

section \<open>Float rounding\<close>

lemma two_powi_nat: "0 \<le> k \<Longrightarrow> (2::rat) powi k = of_int (2 ^ nat k)"
  by (simp add: power_int_def)

lemma two_powi_neg: "0 \<le> k \<Longrightarrow> (2::rat) powi (- k) = 1 / of_int (2 ^ nat k)"
  by (simp add: power_int_minus two_powi_nat field_simps)

lemma binade_bounds:
  assumes "x \<noteq> 0"
  shows "2 powi binade x \<le> \<bar>x\<bar> \<and> \<bar>x\<bar> < 2 powi (binade x + 1)"
proof (cases "1 \<le> \<bar>x\<bar>")
  case True
  let ?n = "\<lfloor>\<bar>x\<bar>\<rfloor>"
  let ?b = "bitlen ?n"
  have n: "0 < ?n" using True by linarith
  have b: "2 ^ nat (?b - 1) \<le> ?n" "?n < 2 ^ nat ?b" using bitlen_bounds [OF n] by simp_all
  have b1: "1 \<le> ?b" using n bitlen_eq_zero_iff [of ?n] bitlen_nonneg [of ?n] by linarith
  have eq: "binade x = ?b - 1" using True by (simp add: binade_def)
  have "(2::rat) powi (?b - 1) = of_int (2 ^ nat (?b - 1))" using b1 by (intro two_powi_nat) simp
  also have "\<dots> \<le> of_int ?n" using b(1) by (simp only: of_int_le_iff)
  also have "\<dots> \<le> \<bar>x\<bar>" by linarith
  finally have lower: "2 powi (?b - 1) \<le> \<bar>x\<bar>" .
  have "?n + 1 \<le> 2 ^ nat ?b" using b(2) by linarith
  then have "(of_int (?n + 1) :: rat) \<le> of_int (2 ^ nat ?b)" by (simp only: of_int_le_iff)
  moreover have "\<bar>x\<bar> < of_int (?n + 1)" by linarith
  moreover have "(2::rat) powi ?b = of_int (2 ^ nat ?b)" using b1 by (intro two_powi_nat) simp
  ultimately have upper: "\<bar>x\<bar> < 2 powi ?b" by linarith
  show ?thesis using lower upper by (simp add: eq)
next
  case False
  then have small: "\<bar>x\<bar> < 1" by simp
  have pos: "0 < \<bar>x\<bar>" using assms by simp
  let ?r = "1 / \<bar>x\<bar>"
  let ?n = "\<lceil>?r\<rceil> - 1"
  let ?b = "bitlen ?n"
  have r1: "1 < ?r" using small pos by (simp add: field_simps)
  have n: "0 < ?n" using r1 by linarith
  have nr: "of_int ?n < ?r" "?r \<le> of_int ?n + 1" by linarith+
  have b: "2 ^ nat (?b - 1) \<le> ?n" "?n < 2 ^ nat ?b" using bitlen_bounds [OF n] by simp_all
  have b1: "1 \<le> ?b" using n bitlen_eq_zero_iff [of ?n] bitlen_nonneg [of ?n] by linarith
  have eq: "binade x = - ?b" using False by (simp add: binade_def)
  have "?n + 1 \<le> 2 ^ nat ?b" using b(2) by linarith
  then have c1: "(of_int (?n + 1) :: rat) \<le> of_int (2 ^ nat ?b)" by (simp only: of_int_le_iff)
  have c2: "?r \<le> of_int (?n + 1)" using nr(2) by simp
  have "?r \<le> of_int (2 ^ nat ?b)" using c2 c1 by (rule order_trans)
  then have "1 \<le> of_int (2 ^ nat ?b) * \<bar>x\<bar>" using pos by (simp add: field_simps)
  then have "1 / of_int (2 ^ nat ?b) \<le> \<bar>x\<bar>" by (simp add: field_simps)
  moreover have "(2::rat) powi (- ?b) = 1 / of_int (2 ^ nat ?b)"
    using b1 by (intro two_powi_neg) simp
  ultimately have lower: "2 powi (- ?b) \<le> \<bar>x\<bar>" by simp
  have "(of_int (2 ^ nat (?b - 1)) :: rat) \<le> of_int ?n" using b(1) by (simp only: of_int_le_iff)
  then have "of_int (2 ^ nat (?b - 1)) < ?r" using nr(1) by linarith
  then have "of_int (2 ^ nat (?b - 1)) * \<bar>x\<bar> < 1" using pos by (simp add: field_simps)
  then have "\<bar>x\<bar> < 1 / of_int (2 ^ nat (?b - 1))" by (simp add: field_simps)
  moreover have "(2::rat) powi (- (?b - 1)) = 1 / of_int (2 ^ nat (?b - 1))"
    using b1 by (intro two_powi_neg) simp
  ultimately have upper: "\<bar>x\<bar> < 2 powi (- ?b + 1)" by simp
  show ?thesis using lower upper by (simp add: eq)
qed

lemma binade_eqI:
  assumes "x \<noteq> 0" and "2 powi k \<le> \<bar>x\<bar>" and "\<bar>x\<bar> < 2 powi (k + 1)"
  shows "binade x = k"
proof -
  note B = binade_bounds [OF assms(1)]
  have "(2::rat) powi k < 2 powi (binade x + 1)" using assms(2) B by linarith
  then have "k < binade x + 1"
    using power_int_increasing [of "binade x + 1" k "2::rat"] by (cases "k < binade x + 1") auto
  moreover have "(2::rat) powi binade x < 2 powi (k + 1)" using assms(3) B by linarith
  then have "binade x < k + 1"
    using power_int_increasing [of "k + 1" "binade x" "2::rat"] by (cases "binade x < k + 1") auto
  ultimately show ?thesis by simp
qed

lemma py_round_nonneg: "0 \<le> x \<Longrightarrow> 0 \<le> py_round x"
  by (auto simp: py_round_def Let_def)

lemma py_round_le: "x < of_int n \<Longrightarrow> py_round x \<le> n"
proof -
  assume "x < of_int n"
  then have "\<lfloor>x\<rfloor> < n" by (simp add: floor_less_iff)
  then show ?thesis by (auto simp: py_round_def Let_def)
qed

lemma py_round_tie: "py_round (of_int n + 1 / 2) = (if even n then n else n + 1)"
proof -
  have "\<lfloor>(of_int n :: rat) + 1 / 2\<rfloor> = n" by (intro floor_unique) simp_all
  then show ?thesis by (simp add: py_round_def Let_def)
qed

lemma py_round_near:
  assumes "of_int n - 1 / 2 < x" and "x < of_int n + 1 / 2"
  shows "py_round x = n"
proof (cases "of_int n \<le> x")
  case True
  then have "\<lfloor>x\<rfloor> = n" using assms(2) by (intro floor_unique) simp_all
  then show ?thesis using assms(2) by (simp add: py_round_def Let_def)
next
  case False
  then have "\<lfloor>x\<rfloor> = n - 1" using assms(1) by (intro floor_unique) simp_all
  then show ?thesis using assms(1) False by (simp add: py_round_def Let_def)
qed

lemma round_double_at:
  assumes "x \<noteq> 0" and "2 powi k \<le> \<bar>x\<bar>" and "\<bar>x\<bar> < 2 powi (k + 1)"
  shows "round_double x =
     (let e = max (k - 52) (- 1074);
          y = of_int (py_round (x / 2 powi e)) * 2 powi e
      in if 2 ^ 1024 \<le> \<bar>y\<bar> then (if 0 < x then PlusInf else MinusInf) else Finite y)"
  using assms(1) by (simp add: round_double_def binade_eqI [OF assms])

lemma round_double_nonneg:
  assumes "0 \<le> x"
  shows "round_double x = PlusInf \<or> (\<exists>y. round_double x = Finite y \<and> 0 \<le> y)"
proof (cases "x = 0")
  case True
  then show ?thesis by (simp add: round_double_def)
next
  case False
  let ?e = "max (binade x - 52) (- 1074)"
  let ?y = "of_int (py_round (x / 2 powi ?e)) * (2::rat) powi ?e"
  have "0 \<le> x / 2 powi ?e" using assms by simp
  then have "0 \<le> py_round (x / 2 powi ?e)" by (rule py_round_nonneg)
  then have "0 \<le> ?y" by simp
  moreover have "0 < x" using assms False by simp
  ultimately show ?thesis using False by (simp add: round_double_def Let_def)
qed

lemma round_double_in_range:
  assumes "0 < x" and "x < 2 ^ 1023"
  shows "\<exists>y. round_double x = Finite y \<and> 0 \<le> y"
proof -
  let ?k = "binade x"
  let ?e = "max (?k - 52) (- 1074)"
  let ?t = "x / 2 powi ?e"
  let ?y = "of_int (py_round ?t) * (2::rat) powi ?e"
  have x0: "x \<noteq> 0" "\<bar>x\<bar> = x" using assms(1) by simp_all
  have B: "2 powi ?k \<le> x" "x < 2 powi (?k + 1)" using binade_bounds [OF x0(1)] x0(2) by simp_all
  have "(2::rat) powi ?k < 2 powi 1023" using B(1) assms(2) by simp
  then have k: "?k < 1023"
    using power_int_increasing [of 1023 ?k "2::rat"] by (cases "?k < 1023") auto
  have e: "?e \<le> 970" "?k + 1 - ?e \<le> 53" using k by simp_all
  have pe: "0 < (2::rat) powi ?e" by simp
  have "?t < 2 powi (?k + 1) / 2 powi ?e" using B(2) pe by (simp add: divide_strict_right_mono)
  also have "\<dots> = 2 powi (?k + 1 - ?e)" by (simp add: power_int_diff)
  also have "\<dots> \<le> 2 powi 53" using e(2) by (intro power_int_increasing) simp_all
  finally have "?t < of_int (2 ^ 53)" by simp
  then have m1: "py_round ?t \<le> 2 ^ 53" by (rule py_round_le)
  have "0 \<le> ?t" using assms(1) by simp
  then have m0: "0 \<le> py_round ?t" by (rule py_round_nonneg)
  have y0: "0 \<le> ?y" using m0 by simp
  have "(of_int (py_round ?t) :: rat) \<le> of_int (2 ^ 53)"
    using m1 by (simp only: of_int_le_iff)
  then have "?y \<le> of_int (2 ^ 53) * 2 powi ?e"
    using pe by (intro mult_right_mono) simp_all
  also have "\<dots> = 2 powi (53 + ?e)" by (simp add: power_int_add)
  also have "\<dots> \<le> 2 powi 1023" using e(1) by (intro power_int_increasing) simp_all
  also have "\<dots> < 2 ^ 1024" by simp
  finally have "\<not> 2 ^ 1024 \<le> \<bar>?y\<bar>" using y0 by simp
  then have "round_double x = Finite ?y"
    using x0(1) by (simp add: round_double_def Let_def)
  then show ?thesis using y0 by blast
qed

text \<open>The literals and operations behind the two examples of the specification.\<close>

lemma literal_0: "float_literal 0 = Finite 0"
  by (simp add: float_literal_def round_double_def)

lemma literal_1_6: "float_literal (16 / 10) = Finite (7205759403792794 / 2 ^ 52)"
proof -
  have "py_round (16 / 10 * 2 ^ 52) = 7205759403792794"
    by (rule py_round_near) simp_all
  then show ?thesis
    unfolding float_literal_def
    by (subst round_double_at [where k = 0]) (simp_all add: Let_def)
qed

lemma literal_5: "float_literal 5 = Finite 5"
proof -
  have "py_round (5 * 2 ^ 50) = 5 * 2 ^ 50"
    by (rule py_round_near) simp_all
  then show ?thesis
    unfolding float_literal_def
    by (subst round_double_at [where k = 2]) (simp_all add: Let_def)
qed

lemma sub_0_16:
  "double_sub (float_literal 0) (float_literal (16 / 10)) = Finite (- (7205759403792794 / 2 ^ 52))"
proof -
  have "py_round (- (7205759403792794 / 2 ^ 52) * 2 ^ 52) = - 7205759403792794"
    by (rule py_round_near) simp_all
  then have "round_double (0 - 7205759403792794 / 2 ^ 52) = Finite (- (7205759403792794 / 2 ^ 52))"
    by (subst round_double_at [where k = 0]) (simp_all add: Let_def)
  then show ?thesis unfolding literal_0 literal_1_6 double_sub.simps .
qed

lemma sub_5_16:
  "double_sub (float_literal 5) (float_literal (16 / 10)) = Finite (7656119366529843 / 2 ^ 51)"
proof -
  have "py_round ((5 - 7205759403792794 / 2 ^ 52) * 2 ^ 51) = 7656119366529843"
    by (rule py_round_near) simp_all
  then have "round_double (5 - 7205759403792794 / 2 ^ 52) = Finite (7656119366529843 / 2 ^ 51)"
    by (subst round_double_at [where k = 1]) (simp_all add: Let_def)
  then show ?thesis unfolding literal_5 literal_1_6 double_sub.simps .
qed

lemma mul_5_16:
  "times_four (Finite (7656119366529843 / 2 ^ 51)) = Finite (7656119366529843 / 2 ^ 49)"
proof -
  have "py_round (7656119366529843 / 2 ^ 51 * 4 * 2 ^ 49) = 7656119366529843"
    by (rule py_round_near) simp_all
  then have "round_double (7656119366529843 / 2 ^ 51 * 4) = Finite (7656119366529843 / 2 ^ 49)"
    by (subst round_double_at [where k = 3]) (simp_all add: Let_def)
  then show ?thesis unfolding times_four.simps .
qed

lemma round_5_16: "py_round (7656119366529843 / 2 ^ 49) = 14"
  by (rule py_round_near) simp_all

lemma code_0_16: "to_attenuation_code (float_literal 0) (float_literal (16 / 10)) = Inr 0"
  unfolding to_attenuation_code_def sub_0_16 by (simp add: Let_def)

lemma code_0_0: "to_attenuation_code (float_literal 0) (float_literal 0) = Inr 0"
  unfolding to_attenuation_code_def literal_0
  by (simp add: Let_def round_double_def py_round_def)

lemma code_5_16: "to_attenuation_code (float_literal 5) (float_literal (16 / 10)) = Inr 14"
  unfolding to_attenuation_code_def sub_5_16
  by (simp only: Let_def double_ge_zero.simps mul_5_16 round_float.simps round_5_16) simp

lemma default_attenuation_codes: "get_default_attenuation_codes = Inr ([0, 0, 0, 0], [0])"
  unfolding get_default_attenuation_codes_def code_0_16 code_0_0
  by (simp add: sum_bind_def py_range_def upt_conv_Cons)

text \<open>
  An ordinary pair of inputs on which the rounding of the subtraction decides the code:
  \<open>0.475 - 0.1\<close> is the float \<open>0.375\<close>, so the product is \<open>1.5\<close> and the code is
  \<open>2\<close>.
\<close>

lemma code_tie_example:
  "to_attenuation_code (float_literal (475 / 1000)) (float_literal (1 / 10)) = Inr 2"
proof -
  have a: "float_literal (475 / 1000) = Finite (8556839292003942 / 2 ^ 54)"
  proof -
    have "py_round (475 / 1000 * 2 ^ 54) = 8556839292003942"
      by (rule py_round_near) simp_all
    then show ?thesis
      unfolding float_literal_def
      by (subst round_double_at [where k = "- 2"]) (simp_all add: Let_def)
  qed
  have b: "float_literal (1 / 10) = Finite (7205759403792794 / 2 ^ 56)"
  proof -
    have "py_round (1 / 10 * 2 ^ 56) = 7205759403792794"
      by (rule py_round_near) simp_all
    then show ?thesis
      unfolding float_literal_def
      by (subst round_double_at [where k = "- 4"]) (simp_all add: Let_def)
  qed
  have tie: "py_round ((8556839292003942 / 2 ^ 54 - 7205759403792794 / 2 ^ 56) * 2 ^ 54)
      = 6755399441055744"
  proof -
    have "(8556839292003942 / 2 ^ 54 - 7205759403792794 / 2 ^ 56) * 2 ^ 54
        = (of_int 6755399441055743 + 1 / 2 :: rat)" by simp
    then show ?thesis by (simp only: py_round_tie) simp
  qed
  have c: "round_double (8556839292003942 / 2 ^ 54 - 7205759403792794 / 2 ^ 56) = Finite (3 / 8)"
    using tie by (subst round_double_at [where k = "- 2"]) (simp_all add: Let_def)
  have "py_round (3 / 8 * 4 * 2 ^ 52) = 3 * 2 ^ 51"
    by (rule py_round_near) simp_all
  then have d: "round_double (3 / 8 * 4) = Finite (3 / 2)"
    by (subst round_double_at [where k = 0]) (simp_all add: Let_def)
  have "(3 / 2 :: rat) = of_int 1 + 1 / 2" by simp
  then have e: "py_round (3 / 2) = 2" by (simp only: py_round_tie) simp
  show ?thesis
    unfolding to_attenuation_code_def a b
    by (simp only: Let_def double_sub.simps c double_ge_zero.simps times_four.simps d
        round_float.simps e) simp
qed

section \<open>Attenuation codes\<close>

text \<open>
  Claim C9, as the code has it. Let \<open>d\<close> be the float \<open>power_db - insertion_loss_db\<close>.
  When \<open>d >= 0\<close> is false (\<open>d\<close> negative, or a nan) the function returns \<open>0\<close>. When
  \<open>d >= 0\<close> holds and the float \<open>d * 4\<close> is finite it returns \<open>round(d * 4)\<close>, ties to
  even, which is not negative; that is the case for every finite \<open>d\<close> below \<open>2^1021\<close>.
  When \<open>d >= 0\<close> holds and \<open>d * 4\<close> is \<open>inf\<close> it raises OverflowError, and it raises
  nothing else and in no other case. The code of \<open>(0.0, 1.6)\<close> is \<open>0\<close> and the code
  of \<open>(5.0, 1.6)\<close> is \<open>14\<close>.
\<close>

theorem to_attenuation_code_spec:
  "(\<not> double_ge_zero (double_sub power_db insertion_loss_db)
      \<longrightarrow> to_attenuation_code power_db insertion_loss_db = Inr 0)
   \<and> (\<forall>v. double_ge_zero (double_sub power_db insertion_loss_db)
           \<and> times_four (double_sub power_db insertion_loss_db) = Finite v
         \<longrightarrow> to_attenuation_code power_db insertion_loss_db = Inr (py_round v)
             \<and> 0 \<le> py_round v)
   \<and> (double_ge_zero (double_sub power_db insertion_loss_db)
         \<and> times_four (double_sub power_db insertion_loss_db) = PlusInf
       \<longrightarrow> to_attenuation_code power_db insertion_loss_db = Inl OverflowError)
   \<and> (\<forall>e. to_attenuation_code power_db insertion_loss_db = Inl e
         \<longrightarrow> e = OverflowError
             \<and> double_ge_zero (double_sub power_db insertion_loss_db)
             \<and> times_four (double_sub power_db insertion_loss_db) = PlusInf)
   \<and> (\<forall>c. to_attenuation_code power_db insertion_loss_db = Inr c \<longrightarrow> 0 \<le> c)
   \<and> (\<forall>v. double_sub power_db insertion_loss_db = Finite v \<and> v < 2 ^ 1021
         \<longrightarrow> (\<exists>c. to_attenuation_code power_db insertion_loss_db = Inr c))
   \<and> to_attenuation_code (float_literal 0) (float_literal (16 / 10)) = Inr 0
   \<and> to_attenuation_code (float_literal 5) (float_literal (16 / 10)) = Inr 14"
proof -
  let ?d = "double_sub power_db insertion_loss_db"
  have product: "times_four ?d = PlusInf \<or> (\<exists>v. times_four ?d = Finite v \<and> 0 \<le> v)"
    if "double_ge_zero ?d"
  proof (cases ?d)
    case (Finite a)
    then have "0 \<le> a * 4" using that by simp
    then show ?thesis using Finite round_double_nonneg [of "a * 4"] by simp
  qed (use that in simp_all)
  have small: "\<exists>c. to_attenuation_code power_db insertion_loss_db = Inr c"
    if "?d = Finite v" "v < 2 ^ 1021" for v
  proof (cases "0 < v")
    case True
    then have "0 < v * 4" "v * 4 < 2 ^ 1023" using that(2) by simp_all
    then obtain y where "round_double (v * 4) = Finite y"
      using round_double_in_range by blast
    then show ?thesis using that(1) True by (simp add: to_attenuation_code_def Let_def)
  next
    case False
    then show ?thesis
      using that(1)
      by (cases "v = 0") (simp_all add: to_attenuation_code_def Let_def round_double_def)
  qed
  show ?thesis
  proof (intro conjI allI impI)
    assume "\<not> double_ge_zero ?d"
    then show "to_attenuation_code power_db insertion_loss_db = Inr 0"
      by (simp add: to_attenuation_code_def Let_def)
  next
    fix v assume h: "double_ge_zero ?d \<and> times_four ?d = Finite v"
    then show "to_attenuation_code power_db insertion_loss_db = Inr (py_round v)"
      by (simp add: to_attenuation_code_def Let_def)
    show "0 \<le> py_round v" using h product by (auto intro: py_round_nonneg)
  next
    assume "double_ge_zero ?d \<and> times_four ?d = PlusInf"
    then show "to_attenuation_code power_db insertion_loss_db = Inl OverflowError"
      by (simp add: to_attenuation_code_def Let_def)
  next
    fix e assume h: "to_attenuation_code power_db insertion_loss_db = Inl e"
    then have ge: "double_ge_zero ?d"
      by (cases "double_ge_zero ?d") (simp_all add: to_attenuation_code_def Let_def)
    then have r: "round_float (times_four ?d) = Inl e"
      using h by (simp add: to_attenuation_code_def Let_def)
    then have inf: "times_four ?d = PlusInf" using product [OF ge] by auto
    show "e = OverflowError" using r inf by simp
    show "double_ge_zero ?d" by (rule ge)
    show "times_four ?d = PlusInf" by (rule inf)
  next
    fix c assume h: "to_attenuation_code power_db insertion_loss_db = Inr c"
    show "0 \<le> c"
    proof (cases "double_ge_zero ?d")
      case True
      then have "round_float (times_four ?d) = Inr c"
        using h by (simp add: to_attenuation_code_def Let_def)
      then show ?thesis using product [OF True] by (auto intro: py_round_nonneg)
    next
      case False
      then show ?thesis using h by (simp add: to_attenuation_code_def Let_def)
    qed
  next
    fix v assume "?d = Finite v \<and> v < 2 ^ 1021"
    then show "\<exists>c. to_attenuation_code power_db insertion_loss_db = Inr c"
      using small by blast
  next
    show "to_attenuation_code (float_literal 0) (float_literal (16 / 10)) = Inr 0"
      by (rule code_0_16)
    show "to_attenuation_code (float_literal 5) (float_literal (16 / 10)) = Inr 14"
      by (rule code_5_16)
  qed
qed

lemma overflow_steps:
  "double_sub (Finite (2 ^ 1023)) (Finite 0) = Finite (2 ^ 1023)"
  "times_four (Finite (2 ^ 1023)) = PlusInf"
  "round_double (2 ^ 1023) = Finite (2 ^ 1023)"
proof -
  have r: "py_round (2 ^ 52) = 2 ^ 52"
    by (rule py_round_near) simp_all
  show same: "round_double (2 ^ 1023) = Finite (2 ^ 1023)"
    using r by (subst round_double_at [where k = 1023]) (simp_all add: Let_def)
  then show "double_sub (Finite (2 ^ 1023)) (Finite 0) = Finite (2 ^ 1023)" by simp
  have "round_double (2 ^ 1023 * 4) = PlusInf"
    using r by (subst round_double_at [where k = 1025]) (simp_all add: Let_def)
  then show "times_four (Finite (2 ^ 1023)) = PlusInf" unfolding times_four.simps .
qed

theorem to_attenuation_code_spec_witness:
  "\<not> double_ge_zero (double_sub (float_literal 0) (float_literal (16 / 10)))
   \<and> to_attenuation_code (float_literal 0) (float_literal (16 / 10)) = Inr 0
   \<and> double_ge_zero (double_sub (float_literal 5) (float_literal (16 / 10)))
   \<and> times_four (double_sub (float_literal 5) (float_literal (16 / 10)))
       = Finite (7656119366529843 / 2 ^ 49)
   \<and> double_sub (float_literal 5) (float_literal (16 / 10)) = Finite (7656119366529843 / 2 ^ 51)
   \<and> (7656119366529843 / 2 ^ 51 :: rat) < 2 ^ 1021
   \<and> to_attenuation_code (float_literal 5) (float_literal (16 / 10))
       = Inr (py_round (7656119366529843 / 2 ^ 49))
   \<and> py_round (7656119366529843 / 2 ^ 49) = 14
   \<and> double_ge_zero (double_sub (Finite (2 ^ 1023)) (Finite 0))
   \<and> times_four (double_sub (Finite (2 ^ 1023)) (Finite 0)) = PlusInf
   \<and> to_attenuation_code (Finite (2 ^ 1023)) (Finite 0) = Inl OverflowError"
proof -
  have n1: "\<not> double_ge_zero (double_sub (float_literal 0) (float_literal (16 / 10)))"
    unfolding sub_0_16 by simp
  have g2: "double_ge_zero (double_sub (float_literal 5) (float_literal (16 / 10)))"
    unfolding sub_5_16 by simp
  have t2: "times_four (double_sub (float_literal 5) (float_literal (16 / 10)))
       = Finite (7656119366529843 / 2 ^ 49)"
    unfolding sub_5_16 by (rule mul_5_16)
  have s2: "(7656119366529843 / 2 ^ 51 :: rat) < 2 ^ 1021" by simp
  have g3: "double_ge_zero (double_sub (Finite (2 ^ 1023)) (Finite 0))"
    unfolding overflow_steps(1) by simp
  have t3: "times_four (double_sub (Finite (2 ^ 1023)) (Finite 0)) = PlusInf"
    unfolding overflow_steps(1) by (rule overflow_steps(2))
  note spec1 = to_attenuation_code_spec [of "float_literal 0" "float_literal (16 / 10)"]
  note spec2 = to_attenuation_code_spec [of "float_literal 5" "float_literal (16 / 10)"]
  note spec3 = to_attenuation_code_spec [of "Finite (2 ^ 1023)" "Finite 0"]
  have r1: "to_attenuation_code (float_literal 0) (float_literal (16 / 10)) = Inr 0"
    using spec1 n1 by blast
  have r2: "to_attenuation_code (float_literal 5) (float_literal (16 / 10))
       = Inr (py_round (7656119366529843 / 2 ^ 49))"
    using spec2 g2 t2 by blast
  have r3: "to_attenuation_code (Finite (2 ^ 1023)) (Finite 0) = Inl OverflowError"
    using spec3 g3 t3 by blast
  from n1 r1 g2 t2 sub_5_16 s2 r2 round_5_16 g3 t3 r3 show ?thesis by blast
qed

text \<open>
  The claim as stated has the function total. At the finite floats \<open>2.0 ** 1023\<close> and
  \<open>0.0\<close> the difference is \<open>2.0 ** 1023\<close>, its product with 4 is \<open>inf\<close>, and \<open>round\<close>
  raises OverflowError.
\<close>

theorem to_attenuation_code_overflows:
  "round_double (2 ^ 1023) = Finite (2 ^ 1023)
   \<and> round_double 0 = Finite 0
   \<and> to_attenuation_code (Finite (2 ^ 1023)) (Finite 0) = Inl OverflowError"
proof -
  have "to_attenuation_code (Finite (2 ^ 1023)) (Finite 0) = Inl OverflowError"
    unfolding to_attenuation_code_def overflow_steps(1)
    by (simp only: Let_def double_ge_zero.simps overflow_steps(2) round_float.simps) simp
  then show ?thesis using overflow_steps(3) by (simp add: round_double_def)
qed

section \<open>The positioner window\<close>




text \<open>
  Claim C6. With \<open>SWEEP_BOTH_DIRECTIONS\<close> enabled and \<open>direction_forward\<close> false, for
  every \<open>phi\<close> and \<open>theta\<close> the window has \<open>az_start = -AZ_START\<close> and
  \<open>az_finish = -AZ_FINISH\<close>; the polarisation and horn fields are the configured ones,
  and so are the elevation fields when \<open>ELEVATION_PHI_ADJUSTMENT\<close> is disabled.
\<close>

theorem reverse_pass_window:
  assumes "SWEEP_BOTH_DIRECTIONS cfg" and "\<not> forward"
  shows "az_start (calculate_sweep_angles cfg forward phi theta) = - AZ_START cfg
         \<and> az_finish (calculate_sweep_angles cfg forward phi theta) = - AZ_FINISH cfg
         \<and> pol_start (calculate_sweep_angles cfg forward phi theta) = POL_START cfg
         \<and> pol_finish (calculate_sweep_angles cfg forward phi theta) = POL_FINISH cfg
         \<and> horn_start (calculate_sweep_angles cfg forward phi theta) = HORN_START cfg
         \<and> horn_finish (calculate_sweep_angles cfg forward phi theta) = HORN_FINISH cfg
         \<and> (\<not> ELEVATION_PHI_ADJUSTMENT cfg \<longrightarrow>
              el_start (calculate_sweep_angles cfg forward phi theta) = EL_START cfg
              \<and> el_finish (calculate_sweep_angles cfg forward phi theta) = EL_FINISH cfg)"
  using assms by (simp add: calculate_sweep_angles_def Let_def)

theorem reverse_pass_window_witness:
  "SWEEP_BOTH_DIRECTIONS (shipped_config\<lparr>SWEEP_BOTH_DIRECTIONS := True\<rparr>) \<and> \<not> False
   \<and> calculate_sweep_angles (shipped_config\<lparr>SWEEP_BOTH_DIRECTIONS := True\<rparr>) False (PyInt 180) (PyInt 5)
       = \<lparr> az_start = 35, az_finish = - 35, el_start = 0, el_finish = 0,
           pol_start = 0, pol_finish = 0, horn_start = 90, horn_finish = 90 \<rparr>"
proof -
  let ?cfg = "shipped_config\<lparr>SWEEP_BOTH_DIRECTIONS := True\<rparr>"
  have h: "SWEEP_BOTH_DIRECTIONS ?cfg" by simp
  have vals: "AZ_START ?cfg = - 35" "AZ_FINISH ?cfg = 35" "EL_START ?cfg = 0" "EL_FINISH ?cfg = 0"
    "POL_START ?cfg = 0" "POL_FINISH ?cfg = 0" "HORN_START ?cfg = 90" "HORN_FINISH ?cfg = 90"
    "\<not> ELEVATION_PHI_ADJUSTMENT ?cfg"
    by (simp_all add: shipped_config_def)
  have "calculate_sweep_angles ?cfg False (PyInt 180) (PyInt 5)
       = \<lparr> az_start = 35, az_finish = - 35, el_start = 0, el_finish = 0,
           pol_start = 0, pol_finish = 0, horn_start = 90, horn_finish = 90 \<rparr>"
    using reverse_pass_window [OF h, of False "PyInt 180" "PyInt 5"] vals
    by (intro sweep_angles.equality) simp_all
  then show ?thesis using h by simp
qed

section \<open>Running the combinators\<close>

lemma exec_bind_Inr: "m w = (Inr x, w') \<Longrightarrow> exec_bind m f w = f x w'"
  by (simp add: exec_bind_def)

lemma exec_bind_Inl: "m w = (Inl e, w') \<Longrightarrow> exec_bind m f w = (Inl e, w')"
  by (simp add: exec_bind_def)

lemma exec_bind_return: "exec_bind (exec_return x) f = f x"
  by (simp add: exec_bind_def exec_return_def)

lemma exec_bind_raise: "exec_bind (exec_raise e) f = exec_raise e"
  by (simp add: exec_bind_def exec_raise_def)

lemma exec_bind_lift_Inr: "exec_bind (exec_lift (Inr x)) f = f x"
  by (simp add: exec_bind_def exec_lift_def)

lemma exec_bind_lift_Inl: "exec_bind (exec_lift (Inl e)) f = exec_raise e"
  by (simp add: exec_bind_def exec_lift_def exec_raise_def)

lemma sent_commands_append: "sent_commands (xs @ ys) = sent_commands xs @ sent_commands ys"
  by (induction xs rule: sent_commands.induct) simp_all

lemma measurements_append: "measurements (xs @ ys) = measurements xs @ measurements ys"
  by (induction xs rule: measurements.induct) simp_all

section \<open>Angle selection\<close>

lemma randint_bounds:
  assumes "a \<le> b"
  shows "a \<le> randint a b draw \<and> randint a b draw \<le> b"
proof -
  have "0 < nat (b - a + 1)" using assms by simp
  then have "draw mod nat (b - a + 1) < nat (b - a + 1)" by (rule mod_less_divisor)
  then have "int (draw mod nat (b - a + 1)) < b - a + 1" by linarith
  then show ?thesis by (simp add: randint_def)
qed

lemma random_angles_result:
  "fst (random_angles ev a b num w)
     = Inr (map PyInt (map (\<lambda>k. randint a b (random_draw ev (draws_used w + k))) [0..<num]))"
  by (simp add: random_angles_def)

text \<open>
  Claim C4, as the code has it. With the random path enabled for an axis, every call of
  the selector returns exactly 10 integers; each \<open>phi\<close> lies in \<open>[0, 360]\<close>, both ends
  included, and each \<open>theta\<close> in \<open>[5, 50]\<close>, whatever the random source delivers.
\<close>

theorem random_selection_bounds:
  "(PHI_RANGE_RANDOM cfg \<longrightarrow>
      (\<exists>xs. fst (select_phi_angles ev cfg w) = Inr (map PyInt xs) \<and> length xs = 10
            \<and> (\<forall>x\<in>set xs. 0 \<le> x \<and> x \<le> 360)))
   \<and> (THETA_RANGE_RANDOM cfg \<longrightarrow>
      (\<exists>xs. fst (select_theta_angles ev cfg w) = Inr (map PyInt xs) \<and> length xs = 10
            \<and> (\<forall>x\<in>set xs. 5 \<le> x \<and> x \<le> 50)))"
proof (intro conjI impI)
  assume "PHI_RANGE_RANDOM cfg"
  then have "fst (select_phi_angles ev cfg w)
      = Inr (map PyInt (map (\<lambda>k. randint 0 360 (random_draw ev (draws_used w + k))) [0..<10]))"
    by (simp add: select_phi_angles_def random_angles_result)
  moreover have "\<forall>x\<in>set (map (\<lambda>k. randint 0 360 (random_draw ev (draws_used w + k))) [0..<10]).
      0 \<le> x \<and> x \<le> 360"
    using randint_bounds [of 0 360] by auto
  ultimately show "\<exists>xs. fst (select_phi_angles ev cfg w) = Inr (map PyInt xs) \<and> length xs = 10
            \<and> (\<forall>x\<in>set xs. 0 \<le> x \<and> x \<le> 360)"
    by (intro exI [of _ "map (\<lambda>k. randint 0 360 (random_draw ev (draws_used w + k))) [0..<10]"])
       simp
next
  assume "THETA_RANGE_RANDOM cfg"
  then have "fst (select_theta_angles ev cfg w)
      = Inr (map PyInt (map (\<lambda>k. randint 5 50 (random_draw ev (draws_used w + k))) [0..<10]))"
    by (simp add: select_theta_angles_def random_angles_result)
  moreover have "\<forall>x\<in>set (map (\<lambda>k. randint 5 50 (random_draw ev (draws_used w + k))) [0..<10]).
      5 \<le> x \<and> x \<le> 50"
    using randint_bounds [of 5 50] by auto
  ultimately show "\<exists>xs. fst (select_theta_angles ev cfg w) = Inr (map PyInt xs) \<and> length xs = 10
            \<and> (\<forall>x\<in>set xs. 5 \<le> x \<and> x \<le> 50)"
    by (intro exI [of _ "map (\<lambda>k. randint 5 50 (random_draw ev (draws_used w + k))) [0..<10]"])
       simp
qed

lemma bench_random_phi:
  "fst (select_phi_angles bench_env (shipped_config\<lparr>PHI_RANGE_RANDOM := True\<rparr>) initial_world)
     = Inr (map PyInt [0, 37, 74, 111, 148, 185, 222, 259, 296, 333])"
  by (simp add: select_phi_angles_def random_angles_def bench_env_def initial_world_def
      randint_def upt_conv_Cons)

lemma bench_random_theta:
  "fst (select_theta_angles bench_env (shipped_config\<lparr>THETA_RANGE_RANDOM := True\<rparr>) initial_world)
     = Inr (map PyInt [5, 42, 33, 24, 15, 6, 43, 34, 25, 16])"
  by (simp add: select_theta_angles_def random_angles_def bench_env_def initial_world_def
      randint_def upt_conv_Cons)

theorem random_selection_bounds_witness:
  "PHI_RANGE_RANDOM (shipped_config\<lparr>PHI_RANGE_RANDOM := True, THETA_RANGE_RANDOM := True\<rparr>)
   \<and> THETA_RANGE_RANDOM (shipped_config\<lparr>PHI_RANGE_RANDOM := True, THETA_RANGE_RANDOM := True\<rparr>)
   \<and> (\<exists>xs. fst (select_phi_angles bench_env
                 (shipped_config\<lparr>PHI_RANGE_RANDOM := True, THETA_RANGE_RANDOM := True\<rparr>)
                 initial_world) = Inr (map PyInt xs)
          \<and> length xs = 10 \<and> (\<forall>x\<in>set xs. 0 \<le> x \<and> x \<le> 360))
   \<and> (\<exists>xs. fst (select_theta_angles bench_env
                 (shipped_config\<lparr>PHI_RANGE_RANDOM := True, THETA_RANGE_RANDOM := True\<rparr>)
                 initial_world) = Inr (map PyInt xs)
          \<and> length xs = 10 \<and> (\<forall>x\<in>set xs. 5 \<le> x \<and> x \<le> 50))"
  using random_selection_bounds
    [of "shipped_config\<lparr>PHI_RANGE_RANDOM := True, THETA_RANGE_RANDOM := True\<rparr>"
        bench_env initial_world]
  by simp

text \<open>
  The claim as stated puts \<open>phi\<close> in \<open>[0, 360)\<close>. A random source whose draws all land
  on the upper end makes the selector return \<open>360\<close> ten times.
\<close>

theorem random_phi_reaches_360:
  "PHI_RANGE_RANDOM (shipped_config\<lparr>PHI_RANGE_RANDOM := True\<rparr>)
   \<and> fst (select_phi_angles (bench_env\<lparr>random_draw := (\<lambda>k. 360)\<rparr>)
            (shipped_config\<lparr>PHI_RANGE_RANDOM := True\<rparr>) initial_world)
       = Inr (map PyInt [360, 360, 360, 360, 360, 360, 360, 360, 360, 360])
   \<and> \<not> num_val (PyInt 360) < 360"
  by (simp add: select_phi_angles_def random_angles_def randint_def upt_conv_Cons)

section \<open>Sweep names\<close>

lemma replace_dot_map:
  "replace_dot s = map (\<lambda>c. if c = CHR ''.'' then CHR ''_'' else c) s"
  by (induction s) simp_all

lemma replace_dot_no_dot: "CHR ''.'' \<notin> set (replace_dot s)"
  by (induction s) simp_all

lemma replace_dot_length: "length (replace_dot s) = length s"
  by (induction s) simp_all

text \<open>
  Claim C8. Two invocations of the name generator that read the same timestamp, under
  the same interface and system identifiers, for the same two frequencies and the same
  two angles, produce the same name. The name is the timestamp, the identifiers and the
  four values, joined by the fixed labels; each value is the string of the number with
  every full stop replaced by an underscore, so no full stop is left in it.
\<close>

theorem sweep_name_deterministic:
  assumes "clock_now ev1 (clock_reads w1) = clock_now ev2 (clock_reads w2)"
    and "ARRAY_INTERFACE cfg1 = ARRAY_INTERFACE cfg2"
    and "SYSTEM_CONFIGURATION cfg1 = SYSTEM_CONFIGURATION cfg2"
    and "float_str ev1 = float_str ev2"
  shows "fst (generate_sweep_name ev1 cfg1 ku_freq l_band_freq phi theta w1)
           = fst (generate_sweep_name ev2 cfg2 ku_freq l_band_freq phi theta w2)
         \<and> (\<exists>ku_s l_s phi_s theta_s.
              fst (generate_sweep_name ev1 cfg1 ku_freq l_band_freq phi theta w1)
                = Inr (clock_now ev1 (clock_reads w1) @ ''_'' @ ARRAY_INTERFACE cfg1 @ ''_''
                       @ SYSTEM_CONFIGURATION cfg1 @ ''_Ku_Freq_'' @ ku_s @ ''GHz_L_Freq_'' @ l_s
                       @ ''GHz_Phi_'' @ phi_s @ ''_Theta_'' @ theta_s)
              \<and> ku_s = map (\<lambda>c. if c = CHR ''.'' then CHR ''_'' else c)
                         (float_str ev1 (of_int ku_freq / 1000000000))
              \<and> l_s = map (\<lambda>c. if c = CHR ''.'' then CHR ''_'' else c)
                         (float_str ev1 (of_int l_band_freq / 1000000000))
              \<and> phi_s = map (\<lambda>c. if c = CHR ''.'' then CHR ''_'' else c)
                         (str_num (float_str ev1) phi)
              \<and> theta_s = map (\<lambda>c. if c = CHR ''.'' then CHR ''_'' else c)
                         (str_num (float_str ev1) theta)
              \<and> CHR ''.'' \<notin> set ku_s \<and> CHR ''.'' \<notin> set l_s
              \<and> CHR ''.'' \<notin> set phi_s \<and> CHR ''.'' \<notin> set theta_s)"
proof
  show "fst (generate_sweep_name ev1 cfg1 ku_freq l_band_freq phi theta w1)
           = fst (generate_sweep_name ev2 cfg2 ku_freq l_band_freq phi theta w2)"
    using assms by (simp add: generate_sweep_name_def sweep_name_of_def)
  show "\<exists>ku_s l_s phi_s theta_s.
              fst (generate_sweep_name ev1 cfg1 ku_freq l_band_freq phi theta w1)
                = Inr (clock_now ev1 (clock_reads w1) @ ''_'' @ ARRAY_INTERFACE cfg1 @ ''_''
                       @ SYSTEM_CONFIGURATION cfg1 @ ''_Ku_Freq_'' @ ku_s @ ''GHz_L_Freq_'' @ l_s
                       @ ''GHz_Phi_'' @ phi_s @ ''_Theta_'' @ theta_s)
              \<and> ku_s = map (\<lambda>c. if c = CHR ''.'' then CHR ''_'' else c)
                         (float_str ev1 (of_int ku_freq / 1000000000))
              \<and> l_s = map (\<lambda>c. if c = CHR ''.'' then CHR ''_'' else c)
                         (float_str ev1 (of_int l_band_freq / 1000000000))
              \<and> phi_s = map (\<lambda>c. if c = CHR ''.'' then CHR ''_'' else c)
                         (str_num (float_str ev1) phi)
              \<and> theta_s = map (\<lambda>c. if c = CHR ''.'' then CHR ''_'' else c)
                         (str_num (float_str ev1) theta)
              \<and> CHR ''.'' \<notin> set ku_s \<and> CHR ''.'' \<notin> set l_s
              \<and> CHR ''.'' \<notin> set phi_s \<and> CHR ''.'' \<notin> set theta_s"
    apply (rule exI [of _ "replace_dot (float_str ev1 (of_int ku_freq / 1000000000))"])
    apply (rule exI [of _ "replace_dot (float_str ev1 (of_int l_band_freq / 1000000000))"])
    apply (rule exI [of _ "replace_dot (str_num (float_str ev1) phi)"])
    apply (rule exI [of _ "replace_dot (str_num (float_str ev1) theta)"])
    apply (simp add: generate_sweep_name_def sweep_name_of_def replace_dot_no_dot)
    apply (simp add: replace_dot_map)
    done
qed

lemma bench_name:
  "fst (generate_sweep_name bench_env forwarding_config 11600000000 1500000000
          (PyInt 180) (PyInt 5) initial_world)
     = Inr ''2024-10-16_12-00-00_app_cli_message_forewarding__Ku_Freq_11_6GHz_L_Freq_1_5GHz_Phi_180_Theta_5''"
  by (simp add: generate_sweep_name_def sweep_name_of_def bench_env_def forwarding_config_def
      shipped_config_def initial_world_def str_int_def)

theorem sweep_name_deterministic_witness:
  "clock_now bench_env (clock_reads initial_world)
     = clock_now (bench_env\<lparr>random_draw := (\<lambda>k. 0)\<rparr>) (clock_reads (initial_world\<lparr>clock_reads := 7\<rparr>))
   \<and> ARRAY_INTERFACE forwarding_config = ARRAY_INTERFACE (forwarding_config\<lparr>AZ_START := 0\<rparr>)
   \<and> SYSTEM_CONFIGURATION forwarding_config = SYSTEM_CONFIGURATION (forwarding_config\<lparr>AZ_START := 0\<rparr>)
   \<and> float_str bench_env = float_str (bench_env\<lparr>random_draw := (\<lambda>k. 0)\<rparr>)
   \<and> fst (generate_sweep_name (bench_env\<lparr>random_draw := (\<lambda>k. 0)\<rparr>) (forwarding_config\<lparr>AZ_START := 0\<rparr>)
            11600000000 1500000000 (PyInt 180) (PyInt 5) (initial_world\<lparr>clock_reads := 7\<rparr>))
       = Inr ''2024-10-16_12-00-00_app_cli_message_forewarding__Ku_Freq_11_6GHz_L_Freq_1_5GHz_Phi_180_Theta_5''"
proof -
  let ?ev2 = "bench_env\<lparr>random_draw := (\<lambda>k. 0)\<rparr>"
  let ?cfg2 = "forwarding_config\<lparr>AZ_START := 0\<rparr>"
  let ?w2 = "initial_world\<lparr>clock_reads := 7\<rparr>"
  have h1: "clock_now bench_env (clock_reads initial_world) = clock_now ?ev2 (clock_reads ?w2)"
    by (simp add: bench_env_def)
  have h2: "ARRAY_INTERFACE forwarding_config = ARRAY_INTERFACE ?cfg2" by simp
  have h3: "SYSTEM_CONFIGURATION forwarding_config = SYSTEM_CONFIGURATION ?cfg2" by simp
  have h4: "float_str bench_env = float_str ?ev2" by simp
  have same: "fst (generate_sweep_name bench_env forwarding_config 11600000000 1500000000
                     (PyInt 180) (PyInt 5) initial_world)
               = fst (generate_sweep_name ?ev2 ?cfg2 11600000000 1500000000
                     (PyInt 180) (PyInt 5) ?w2)"
    using sweep_name_deterministic [OF h1 h2 h3 h4, of 11600000000 1500000000 "PyInt 180" "PyInt 5"]
    by (rule conjunct1)
  have name: "fst (generate_sweep_name ?ev2 ?cfg2 11600000000 1500000000
                     (PyInt 180) (PyInt 5) ?w2)
       = Inr ''2024-10-16_12-00-00_app_cli_message_forewarding__Ku_Freq_11_6GHz_L_Freq_1_5GHz_Phi_180_Theta_5''"
    unfolding same [symmetric] by (rule bench_name)
  from h1 h2 h3 h4 name show ?thesis by blast
qed

section \<open>Single steps\<close>

lemma send_commands_ok:
  "serial_link ev (sends w) \<noteq> LinkFailure \<Longrightarrow>
   send_commands ev commands w
     = (Inr (), w\<lparr>sends := sends w + 1, trace := trace w @ [Sent commands]\<rparr>)"
  by (cases "serial_link ev (sends w)") (simp_all add: send_commands_def)

lemma send_commands_fail:
  "serial_link ev (sends w) = LinkFailure \<Longrightarrow>
   send_commands ev commands w = (Inl SerialException, w\<lparr>sends := sends w + 1\<rparr>)"
  by (simp add: send_commands_def)

text \<open>A step is quiet when it leaves the direction flag, its log and the runner alone.\<close>

lemma send_commands_quiet:
  "direction_forward (snd (send_commands ev commands w)) = direction_forward w
   \<and> direction_log (snd (send_commands ev commands w)) = direction_log w
   \<and> runs (snd (send_commands ev commands w)) = runs w"
  by (cases "serial_link ev (sends w)") (simp_all add: send_commands_def)

lemma lift_then_send_quiet:
  "direction_forward (snd (exec_bind (exec_lift r) (send_commands ev) w)) = direction_forward w
   \<and> direction_log (snd (exec_bind (exec_lift r) (send_commands ev) w)) = direction_log w
   \<and> runs (snd (exec_bind (exec_lift r) (send_commands ev) w)) = runs w"
  by (cases r) (simp_all add: exec_bind_def exec_lift_def send_commands_quiet)

lemma control_array_quiet:
  "direction_forward (snd (control_array ev cfg cls ku phi theta w)) = direction_forward w
   \<and> direction_log (snd (control_array ev cfg cls ku phi theta w)) = direction_log w
   \<and> runs (snd (control_array ev cfg cls ku phi theta w)) = runs w"
  by (simp add: control_array_def underscore_control_pose_def Let_def lift_then_send_quiet)

lemma perform_sweep_returns:
  assumes "sweep_runner ev (runs w) \<noteq> RunnerRaised"
  shows "perform_sweep ev cfg d ku l phi theta w
    = (Inr (if SWEEP_BOTH_DIRECTIONS cfg then \<not> d else d),
       w\<lparr>clock_reads := clock_reads w + 1,
         sweep_name := sweep_name_of ev cfg (clock_now ev (clock_reads w)) ku l phi theta,
         runs := runs w + 1,
         trace := trace w @ [Measured (sweep_name_of ev cfg (clock_now ev (clock_reads w)) ku l phi theta)
                     (calculate_sweep_angles cfg d phi theta) (PLOT_SAVE_PATH cfg) False]\<rparr>)"
  using assms
  by (cases "sweep_runner ev (runs w)")
     (simp_all add: perform_sweep_def run_chamber_sweep_def generate_sweep_name_def
        run_sweep_test_swt_def exec_bind_def exec_return_def Let_def)

lemma perform_sweep_raises:
  assumes "sweep_runner ev (runs w) = RunnerRaised"
  shows "perform_sweep ev cfg d ku l phi theta w
    = (Inl MeasurementError,
       w\<lparr>clock_reads := clock_reads w + 1,
         sweep_name := sweep_name_of ev cfg (clock_now ev (clock_reads w)) ku l phi theta,
         runs := runs w + 1,
         trace := trace w @ [Measured (sweep_name_of ev cfg (clock_now ev (clock_reads w)) ku l phi theta)
                     (calculate_sweep_angles cfg d phi theta) (PLOT_SAVE_PATH cfg) False]\<rparr>)"
  using assms
  by (simp add: perform_sweep_def run_chamber_sweep_def generate_sweep_name_def
        run_sweep_test_swt_def exec_bind_def exec_return_def Let_def)

section \<open>The direction flag along a run\<close>

lemma flag_after_0: "flag_after cfg d 0 = d"
  by (simp add: flag_after_def)

lemma flag_after_add: "flag_after cfg (flag_after cfg d m) n = flag_after cfg d (m + n)"
  by (auto simp: flag_after_def)

lemma upt_shift: "[m..<m + n] = map (\<lambda>k. m + k) [0..<n]"
  by (induction n) simp_all

lemma alternation_add:
  "alternation cfg d (m + n) = alternation cfg d m @ alternation cfg (flag_after cfg d m) n"
proof -
  have "[0..<m + n] = [0..<m] @ [m..<m + n]"
    by (rule upt_add_eq_append) simp
  then have "[0..<m + n] = [0..<m] @ map (\<lambda>k. m + k) [0..<n]"
    by (simp only: upt_shift)
  then have "alternation cfg d (m + n)
      = alternation cfg d m @ map (\<lambda>k. flag_after cfg d (Suc (m + k))) [0..<n]"
    by (simp only: alternation_def map_append map_map comp_def)
  moreover have "flag_after cfg d (Suc (m + k)) = flag_after cfg (flag_after cfg d m) (Suc k)" for k
    by (simp add: flag_after_add)
  ultimately show ?thesis by (simp only: alternation_def)
qed

lemma returned_add:
  assumes "a \<le> b" and "b \<le> c"
  shows "returned ev a c = returned ev a b + returned ev b c"
proof -
  obtain k where k: "c = b + k" using assms(2) by (auto simp: le_iff_add)
  have "[a..<b + k] = [a..<b] @ [b..<b + k]"
    using assms(1) by (rule upt_add_eq_append)
  then show ?thesis unfolding returned_def k by (simp only: filter_append length_append)
qed

lemma progress_quiet:
  "direction_forward w' = direction_forward w \<Longrightarrow> direction_log w' = direction_log w
   \<Longrightarrow> runs w' = runs w \<Longrightarrow> progress ev cfg w w'"
  unfolding progress_def
  by (intro exI [of _ 0]) (simp add: alternation_def flag_after_def returned_def)

lemma progress_refl: "progress ev cfg w w"
  by (simp add: progress_quiet)

lemma progress_trans:
  assumes "progress ev cfg w w1" and "progress ev cfg w1 w2"
  shows "progress ev cfg w w2"
proof -
  obtain m where m: "direction_log w1 = direction_log w @ alternation cfg (direction_forward w) m"
      "direction_forward w1 = flag_after cfg (direction_forward w) m"
      "runs w \<le> runs w1" "m = returned ev (runs w) (runs w1)"
    using assms(1) unfolding progress_def by blast
  obtain n where n: "direction_log w2 = direction_log w1 @ alternation cfg (direction_forward w1) n"
      "direction_forward w2 = flag_after cfg (direction_forward w1) n"
      "runs w1 \<le> runs w2" "n = returned ev (runs w1) (runs w2)"
    using assms(2) unfolding progress_def by blast
  have "direction_log w2 = direction_log w @ alternation cfg (direction_forward w) (m + n)"
    unfolding n(1) m(1) m(2) by (simp only: alternation_add append_assoc)
  moreover have "direction_forward w2 = flag_after cfg (direction_forward w) (m + n)"
    unfolding n(2) m(2) by (simp only: flag_after_add)
  moreover have "runs w \<le> runs w2" using m(3) n(3) by simp
  moreover have "m + n = returned ev (runs w) (runs w2)"
    unfolding m(4) n(4) by (rule returned_add [OF m(3) n(3), symmetric])
  ultimately show ?thesis unfolding progress_def by blast
qed

lemma progress_bind:
  assumes "\<And>w. progress ev cfg w (snd (m w))"
    and "\<And>x w. progress ev cfg w (snd (f x w))"
  shows "progress ev cfg w (snd (exec_bind m f w))"
proof (cases "m w")
  case (Pair r w1)
  have step: "progress ev cfg w w1" using assms(1) [of w] Pair by simp
  show ?thesis
  proof (cases r)
    case (Inl e)
    then show ?thesis using Pair step by (simp add: exec_bind_def)
  next
    case (Inr x)
    then have "exec_bind m f w = f x w1" using Pair by (simp add: exec_bind_def)
    then show ?thesis using step assms(2) [of w1 x] by (simp add: progress_trans)
  qed
qed

lemma progress_for_each:
  assumes "\<And>x w. progress ev cfg w (snd (body x w))"
  shows "progress ev cfg w (snd (for_each xs body w))"
proof (induction xs arbitrary: w)
  case Nil
  show ?case by (simp add: exec_return_def progress_refl)
next
  case (Cons x xs)
  show ?case
    unfolding for_each.simps
    by (rule progress_bind) (rule assms, rule Cons.IH)
qed

lemma point_measured_progress:
  "progress ev cfg w
     (snd (exec_bind (\<lambda>w. perform_sweep ev cfg (direction_forward w) ku l phi theta w)
             set_direction w))"
proof (cases "sweep_runner ev (runs w) = RunnerRaised")
  case True
  have "returned ev (runs w) (Suc (runs w)) = 0" using True by (simp add: returned_def)
  then show ?thesis
    using True unfolding progress_def
    by (intro exI [of _ 0])
       (simp add: exec_bind_def perform_sweep_raises alternation_def flag_after_def)
next
  case False
  have "returned ev (runs w) (Suc (runs w)) = 1" using False by (simp add: returned_def)
  then show ?thesis
    using False unfolding progress_def
    by (intro exI [of _ 1])
       (simp add: exec_bind_def perform_sweep_returns set_direction_def alternation_def flag_after_def)
qed

lemma sweep_point_progress:
  "progress ev cfg w
     (snd (sweep_point ev cfg (ArrayController ev cfg cls) ku l phi theta w))"
  unfolding sweep_point_def
proof (rule progress_bind)
  fix w
  show "progress ev cfg w
          (snd ((if ARRAY_INTERFACE cfg = ''app_cli_message_forewarding''
                 then call_method (obj_control_array (ArrayController ev cfg cls)) (\<lambda>m. m ku phi theta)
                 else call_method (obj_control_pose (ArrayController ev cfg cls)) (\<lambda>m. m phi theta)) w))"
    by (simp add: ArrayController_def call_method_def exec_raise_def progress_refl
        progress_quiet control_array_quiet)
next
  fix x :: unit and w
  show "progress ev cfg w
          (snd (exec_bind (\<lambda>w. perform_sweep ev cfg (direction_forward w) ku l phi theta w)
             set_direction w))"
    by (rule point_measured_progress)
qed

lemma select_angles_quiet:
  "progress ev cfg w (snd (select_phi_angles ev cfg w))"
  "progress ev cfg w (snd (select_theta_angles ev cfg w))"
  by (simp_all add: select_phi_angles_def select_theta_angles_def random_angles_def
      exec_return_def progress_quiet)

lemma setup_array_progress: "progress ev cfg w (snd (setup_array ev cfg cls ku az el w))"
proof (cases "ARRAY_INTERFACE cfg = []")
  case False
  then show ?thesis by (simp add: setup_array_def exec_return_def progress_refl)
next
  case True
  have lift: "progress ev cfg w (snd (exec_lift r w))" for r :: "error + string list" and w
    by (simp add: exec_lift_def progress_refl)
  have codes: "progress ev cfg w (snd (exec_lift r w))"
    for r :: "error + int list \<times> int list" and w
    by (simp add: exec_lift_def progress_refl)
  have send: "progress ev cfg w (snd (send_commands ev cmds w))" for cmds w
    by (simp add: progress_quiet send_commands_quiet)
  show ?thesis
    using True unfolding setup_array_def
    by (simp only: if_False not_True_eq_False simp_thms)
       (intro progress_bind lift codes send)
qed

lemma run_sweep_sequence_progress:
  "progress ev cfg w
     (snd (run_sweep_sequence ev cfg (ArrayController ev cfg cls) ku l w))"
  unfolding run_sweep_sequence_def
proof (intro progress_bind progress_for_each)
  fix w
  show "progress ev cfg w
          (snd ((if ARRAY_INTERFACE cfg = ''app_cli_pointing_generator''
                 then call_method (obj_setup_array (ArrayController ev cfg cls)) (\<lambda>m. m ku 0 90)
                 else exec_return ()) w))"
    by (simp add: ArrayController_def call_method_def exec_return_def progress_refl
        setup_array_progress)
next
  fix w show "progress ev cfg w (snd (select_phi_angles ev cfg w))"
    by (rule select_angles_quiet)
next
  fix w show "progress ev cfg w (snd (select_theta_angles ev cfg w))"
    by (rule select_angles_quiet)
next
  fix theta w
  fix phi
  show "progress ev cfg w
          (snd (sweep_point ev cfg (ArrayController ev cfg cls) ku l phi theta w))"
    by (rule sweep_point_progress)
qed

section \<open>One sweep point\<close>

lemma perform_sweep_trace:
  "trace (snd (perform_sweep ev cfg d ku l phi theta w))
     = trace w @ [Measured (sweep_name_of ev cfg (clock_now ev (clock_reads w)) ku l phi theta)
                    (calculate_sweep_angles cfg d phi theta) (PLOT_SAVE_PATH cfg) False]"
  by (cases "sweep_runner ev (runs w) = RunnerRaised")
     (simp_all add: perform_sweep_raises perform_sweep_returns)

lemma measured_point_trace:
  "trace (snd (exec_bind (\<lambda>w. perform_sweep ev cfg (direction_forward w) ku l phi theta w)
                 set_direction w))
     = trace w @ [Measured (sweep_name_of ev cfg (clock_now ev (clock_reads w)) ku l phi theta)
                    (calculate_sweep_angles cfg (direction_forward w) phi theta)
                    (PLOT_SAVE_PATH cfg) False]"
  by (cases "sweep_runner ev (runs w) = RunnerRaised")
     (simp_all add: exec_bind_def perform_sweep_raises perform_sweep_returns set_direction_def)

lemma control_array_forwarding:
  "ARRAY_INTERFACE cfg = ''app_cli_message_forewarding'' \<Longrightarrow>
   control_array ev cfg cls ku phi theta = underscore_control_pose ev cls phi theta"
  by (simp add: control_array_def)

lemma sweep_point_forwarding:
  assumes "ARRAY_INTERFACE cfg = ''app_cli_message_forewarding''"
  shows "sweep_point ev cfg (ArrayController ev cfg cls) ku l phi theta
     = exec_bind (underscore_control_pose ev cls phi theta)
         (\<lambda>_. exec_bind (\<lambda>w. perform_sweep ev cfg (direction_forward w) ku l phi theta w)
                 set_direction)"
  using assms
  by (simp add: sweep_point_def ArrayController_def call_method_def control_array_forwarding)

lemma pose_dispatch:
  "underscore_control_pose ev cls phi theta w
     = (case get_pose_commands ev cls (if 90 < num_val phi then theta else int_minus 360 theta) of
          Inl e \<Rightarrow> (Inl e, w)
        | Inr commands \<Rightarrow>
            if serial_link ev (sends w) = LinkFailure
            then (Inl SerialException, w\<lparr>sends := sends w + 1\<rparr>)
            else (Inr (), w\<lparr>sends := sends w + 1, trace := trace w @ [Sent commands]\<rparr>))"
  by (simp add: underscore_control_pose_def Let_def exec_bind_def exec_lift_def
      send_commands_ok send_commands_fail split: sum.splits)

lemma sweep_point_forwarding_sent:
  assumes "ARRAY_INTERFACE cfg = ''app_cli_message_forewarding''"
  shows "sent_commands (trace (snd (sweep_point ev cfg (ArrayController ev cfg cls) ku l phi theta w)))
     = sent_commands (trace w)
       @ (case get_pose_commands ev cls (if 90 < num_val phi then theta else int_minus 360 theta) of
            Inl e \<Rightarrow> []
          | Inr commands \<Rightarrow> if serial_link ev (sends w) = LinkFailure then [] else [commands])"
proof (cases "get_pose_commands ev cls (if 90 < num_val phi then theta else int_minus 360 theta)")
  case (Inl e)
  then show ?thesis
    by (simp add: sweep_point_forwarding [OF assms] exec_bind_def pose_dispatch)
next
  case (Inr commands)
  show ?thesis
  proof (cases "serial_link ev (sends w) = LinkFailure")
    case True
    then show ?thesis
      using Inr by (simp add: sweep_point_forwarding [OF assms] exec_bind_def pose_dispatch)
  next
    case False
    let ?w1 = "w\<lparr>sends := sends w + 1, trace := trace w @ [Sent commands]\<rparr>"
    have "underscore_control_pose ev cls phi theta w = (Inr (), ?w1)"
      using Inr False by (simp add: pose_dispatch)
    then have "sweep_point ev cfg (ArrayController ev cfg cls) ku l phi theta w
        = exec_bind (\<lambda>w. perform_sweep ev cfg (direction_forward w) ku l phi theta w)
            set_direction ?w1"
      by (simp add: sweep_point_forwarding [OF assms] exec_bind_Inr)
    then show ?thesis
      using Inr False by (simp add: measured_point_trace sent_commands_append)
  qed
qed

lemma sweep_point_no_pose_method:
  "ARRAY_INTERFACE cfg \<noteq> ''app_cli_message_forewarding'' \<Longrightarrow>
   sweep_point ev cfg (ArrayController ev cfg cls) ku l phi theta w = (Inl AttributeError, w)"
  by (simp add: sweep_point_def ArrayController_def call_method_def exec_bind_def exec_raise_def)

lemma inner_loop_no_pose_method:
  assumes "ARRAY_INTERFACE cfg \<noteq> ''app_cli_message_forewarding''"
  shows "for_each thetas (\<lambda>theta. sweep_point ev cfg (ArrayController ev cfg cls) ku l phi theta) w
     = (if thetas = [] then Inr () else Inl AttributeError, w)"
  by (cases thetas)
     (simp_all add: exec_return_def exec_bind_def sweep_point_no_pose_method [OF assms])

section \<open>Runs outside the forwarding mode\<close>

lemma select_theta_angles_shape:
  "\<exists>ts k. select_theta_angles ev cfg w = (Inr ts, w\<lparr>draws_used := k\<rparr>)
          \<and> (ts = [] \<longleftrightarrow> \<not> THETA_RANGE_RANDOM cfg \<and> THETA_RANGE cfg = [])"
proof (cases "THETA_RANGE_RANDOM cfg")
  case True
  let ?xs = "map (\<lambda>k. PyInt (randint 5 50 (random_draw ev (draws_used w + k)))) [0..<10]"
  have "select_theta_angles ev cfg w = (Inr ?xs, w\<lparr>draws_used := draws_used w + 10\<rparr>)"
    using True by (simp add: select_theta_angles_def random_angles_def)
  moreover have "?xs \<noteq> []" by (simp add: upt_conv_Cons)
  ultimately show ?thesis using True by blast
next
  case False
  then have "select_theta_angles ev cfg w = (Inr (THETA_RANGE cfg), w\<lparr>draws_used := draws_used w\<rparr>)"
    by (simp add: select_theta_angles_def exec_return_def)
  then show ?thesis using False by blast
qed

lemma select_phi_angles_shape:
  "\<exists>ps k. select_phi_angles ev cfg w = (Inr ps, w\<lparr>draws_used := k\<rparr>)
          \<and> (ps = [] \<longleftrightarrow> \<not> PHI_RANGE_RANDOM cfg \<and> PHI_RANGE cfg = [])"
proof (cases "PHI_RANGE_RANDOM cfg")
  case True
  let ?xs = "map (\<lambda>k. PyInt (randint 0 360 (random_draw ev (draws_used w + k)))) [0..<10]"
  have "select_phi_angles ev cfg w = (Inr ?xs, w\<lparr>draws_used := draws_used w + 10\<rparr>)"
    using True by (simp add: select_phi_angles_def random_angles_def)
  moreover have "?xs \<noteq> []" by (simp add: upt_conv_Cons)
  ultimately show ?thesis using True by blast
next
  case False
  then have "select_phi_angles ev cfg w = (Inr (PHI_RANGE cfg), w\<lparr>draws_used := draws_used w\<rparr>)"
    by (simp add: select_phi_angles_def exec_return_def)
  then show ?thesis using False by blast
qed

lemma outer_loop_no_pose_method:
  assumes "ARRAY_INTERFACE cfg \<noteq> ''app_cli_message_forewarding''"
  shows "\<exists>k. for_each phis (\<lambda>phi. exec_bind (select_theta_angles ev cfg) (\<lambda>thetas.
                 for_each thetas (\<lambda>theta.
                   sweep_point ev cfg (ArrayController ev cfg cls) ku l phi theta))) w
     = (if phis \<noteq> [] \<and> (THETA_RANGE_RANDOM cfg \<or> THETA_RANGE cfg \<noteq> [])
        then Inl AttributeError else Inr (), w\<lparr>draws_used := k\<rparr>)"
proof (induction phis arbitrary: w)
  case Nil
  show ?case by (intro exI [of _ "draws_used w"]) (simp add: exec_return_def)
next
  case (Cons phi phis)
  obtain ts k1 where sel: "select_theta_angles ev cfg w = (Inr ts, w\<lparr>draws_used := k1\<rparr>)"
      and empty: "ts = [] \<longleftrightarrow> \<not> THETA_RANGE_RANDOM cfg \<and> THETA_RANGE cfg = []"
    using select_theta_angles_shape by blast
  let ?w1 = "w\<lparr>draws_used := k1\<rparr>"
  let ?body = "\<lambda>phi. exec_bind (select_theta_angles ev cfg) (\<lambda>thetas.
                 for_each thetas (\<lambda>theta.
                   sweep_point ev cfg (ArrayController ev cfg cls) ku l phi theta))"
  have inner: "?body phi w = (if ts = [] then Inr () else Inl AttributeError, ?w1)"
    by (simp add: exec_bind_Inr [where m = "select_theta_angles ev cfg" and w = w, OF sel]
        inner_loop_no_pose_method [OF assms])
  show ?case
  proof (cases "ts = []")
    case True
    then have "for_each (phi # phis) ?body w = for_each phis ?body ?w1"
      using inner by (simp add: exec_bind_def)
    moreover obtain k where "for_each phis ?body ?w1
        = (if phis \<noteq> [] \<and> (THETA_RANGE_RANDOM cfg \<or> THETA_RANGE cfg \<noteq> [])
           then Inl AttributeError else Inr (), ?w1\<lparr>draws_used := k\<rparr>)"
      using Cons.IH by blast
    ultimately have "for_each (phi # phis) ?body w = (Inr (), w\<lparr>draws_used := k\<rparr>)"
      using True empty by simp
    then show ?thesis using True empty by auto
  next
    case False
    then have "for_each (phi # phis) ?body w = (Inl AttributeError, ?w1)"
      using inner by (simp add: exec_bind_def)
    then show ?thesis using False empty by auto
  qed
qed

lemma run_without_pose_method:
  assumes "ARRAY_INTERFACE cfg \<noteq> ''app_cli_message_forewarding''"
  shows "\<exists>k. run_sweep_sequence ev cfg (ArrayController ev cfg cls) ku l w
     = (if (PHI_RANGE_RANDOM cfg \<or> PHI_RANGE cfg \<noteq> [])
           \<and> (THETA_RANGE_RANDOM cfg \<or> THETA_RANGE cfg \<noteq> [])
        then Inl AttributeError else Inr (), w\<lparr>draws_used := k\<rparr>)"
proof -
  have prelude: "(if ARRAY_INTERFACE cfg = ''app_cli_pointing_generator''
                then call_method (obj_setup_array (ArrayController ev cfg cls)) (\<lambda>m. m ku 0 90)
                else exec_return ()) = exec_return ()"
    by (auto simp: ArrayController_def call_method_def setup_array_def)
  obtain ps k0 where sel: "select_phi_angles ev cfg w = (Inr ps, w\<lparr>draws_used := k0\<rparr>)"
      and empty: "ps = [] \<longleftrightarrow> \<not> PHI_RANGE_RANDOM cfg \<and> PHI_RANGE cfg = []"
    using select_phi_angles_shape by blast
  obtain k where loop: "for_each ps (\<lambda>phi. exec_bind (select_theta_angles ev cfg) (\<lambda>thetas.
                 for_each thetas (\<lambda>theta.
                   sweep_point ev cfg (ArrayController ev cfg cls) ku l phi theta)))
                 (w\<lparr>draws_used := k0\<rparr>)
     = (if ps \<noteq> [] \<and> (THETA_RANGE_RANDOM cfg \<or> THETA_RANGE cfg \<noteq> [])
        then Inl AttributeError else Inr (), w\<lparr>draws_used := k0\<rparr>\<lparr>draws_used := k\<rparr>)"
    using outer_loop_no_pose_method [OF assms] by blast
  have "run_sweep_sequence ev cfg (ArrayController ev cfg cls) ku l w
     = (if ps \<noteq> [] \<and> (THETA_RANGE_RANDOM cfg \<or> THETA_RANGE cfg \<noteq> [])
        then Inl AttributeError else Inr (), w\<lparr>draws_used := k\<rparr>)"
    unfolding run_sweep_sequence_def prelude exec_bind_return
    by (simp add: exec_bind_Inr [where m = "select_phi_angles ev cfg" and w = w, OF sel] loop)
  then show ?thesis using empty by auto
qed

section \<open>Runs in the forwarding mode\<close>

lemma sweep_point_forwarding_ok:
  assumes mode: "ARRAY_INTERFACE cfg = ''app_cli_message_forewarding''"
    and pose: "\<And>kw. \<exists>s. str_format ev (POSE_CMD cls) kw = Inr s"
    and link: "serial_link ev (sends w) \<noteq> LinkFailure"
    and runner: "sweep_runner ev (runs w) \<noteq> RunnerRaised"
  shows "sweep_point ev cfg (ArrayController ev cfg cls) ku l phi theta w
     = (Inr (), after_point ev cfg cls ku l w (phi, theta))"
proof -
  let ?pitch = "if 90 < num_val phi then theta else int_minus 360 theta"
  obtain s where "str_format ev (POSE_CMD cls)
      [(''roll'', vint 0), (''pitch'', VNum ?pitch), (''yaw'', vint 0), (''x'', vint 0), (''y'', vint 0)]
      = Inr s"
    using pose by blast
  then have cmds: "get_pose_commands ev cls ?pitch = Inr [s, POINTING_GEN_CMD cls]"
    by (simp add: get_pose_commands_def sum_bind_def)
  let ?w1 = "w\<lparr>sends := sends w + 1, trace := trace w @ [Sent [s, POINTING_GEN_CMD cls]]\<rparr>"
  have sent: "underscore_control_pose ev cls phi theta w = (Inr (), ?w1)"
    using cmds link by (simp add: pose_dispatch)
  have runner1: "sweep_runner ev (runs ?w1) \<noteq> RunnerRaised" using runner by simp
  have "sweep_point ev cfg (ArrayController ev cfg cls) ku l phi theta w
      = exec_bind (\<lambda>w. perform_sweep ev cfg (direction_forward w) ku l phi theta w)
          set_direction ?w1"
    by (simp add: sweep_point_forwarding [OF mode] exec_bind_def sent)
  also have "\<dots> = (Inr (), after_point ev cfg cls ku l w (phi, theta))"
    using cmds
    by (simp add: exec_bind_def perform_sweep_returns runner set_direction_def
        after_point_def pose_commands_of_def Let_def)
  finally show ?thesis .
qed

lemma inner_loop_forwarding:
  assumes mode: "ARRAY_INTERFACE cfg = ''app_cli_message_forewarding''"
    and pose: "\<And>kw. \<exists>s. str_format ev (POSE_CMD cls) kw = Inr s"
    and link: "\<And>k. serial_link ev k \<noteq> LinkFailure"
    and runner: "\<And>k. sweep_runner ev k \<noteq> RunnerRaised"
  shows "for_each thetas (\<lambda>theta. sweep_point ev cfg (ArrayController ev cfg cls) ku l phi theta) w
     = (Inr (), foldl (after_point ev cfg cls ku l) w (map (Pair phi) thetas))"
proof (induction thetas arbitrary: w)
  case Nil
  show ?case by (simp add: exec_return_def)
next
  case (Cons theta thetas)
  have "sweep_point ev cfg (ArrayController ev cfg cls) ku l phi theta w
     = (Inr (), after_point ev cfg cls ku l w (phi, theta))"
    by (rule sweep_point_forwarding_ok [OF mode pose link runner])
  then show ?case by (simp add: exec_bind_def Cons.IH)
qed

lemma outer_loop_forwarding:
  assumes mode: "ARRAY_INTERFACE cfg = ''app_cli_message_forewarding''"
    and fixed: "\<not> THETA_RANGE_RANDOM cfg"
    and pose: "\<And>kw. \<exists>s. str_format ev (POSE_CMD cls) kw = Inr s"
    and link: "\<And>k. serial_link ev k \<noteq> LinkFailure"
    and runner: "\<And>k. sweep_runner ev k \<noteq> RunnerRaised"
  shows "for_each phis (\<lambda>phi. exec_bind (select_theta_angles ev cfg) (\<lambda>thetas.
            for_each thetas (\<lambda>theta.
              sweep_point ev cfg (ArrayController ev cfg cls) ku l phi theta))) w
     = (Inr (), foldl (after_point ev cfg cls ku l) w (List.product phis (THETA_RANGE cfg)))"
proof -
  have sel: "select_theta_angles ev cfg = exec_return (THETA_RANGE cfg)"
    using fixed by (simp add: select_theta_angles_def)
  have body: "exec_bind (select_theta_angles ev cfg) (\<lambda>thetas.
            for_each thetas (\<lambda>theta.
              sweep_point ev cfg (ArrayController ev cfg cls) ku l phi theta)) w
     = (Inr (), foldl (after_point ev cfg cls ku l) w (map (Pair phi) (THETA_RANGE cfg)))" for phi w
    unfolding sel exec_bind_return
    by (rule inner_loop_forwarding [OF mode pose link runner])
  show ?thesis
  proof (induction phis arbitrary: w)
    case Nil
    show ?case by (simp add: exec_return_def)
  next
    case (Cons phi phis)
    let ?body = "\<lambda>phi. exec_bind (select_theta_angles ev cfg) (\<lambda>thetas.
            for_each thetas (\<lambda>theta.
              sweep_point ev cfg (ArrayController ev cfg cls) ku l phi theta))"
    have "for_each (phi # phis) ?body w
        = for_each phis ?body
            (foldl (after_point ev cfg cls ku l) w (map (Pair phi) (THETA_RANGE cfg)))"
      unfolding for_each.simps
      by (rule exec_bind_Inr [where m = "?body phi" and w = w, OF body])
    then show ?case by (simp add: Cons.IH)
  qed
qed

lemma run_forwarding:
  assumes mode: "ARRAY_INTERFACE cfg = ''app_cli_message_forewarding''"
    and fixed: "\<not> PHI_RANGE_RANDOM cfg" "\<not> THETA_RANGE_RANDOM cfg"
    and pose: "\<And>kw. \<exists>s. str_format ev (POSE_CMD cls) kw = Inr s"
    and link: "\<And>k. serial_link ev k \<noteq> LinkFailure"
    and runner: "\<And>k. sweep_runner ev k \<noteq> RunnerRaised"
  shows "run_sweep_sequence ev cfg (ArrayController ev cfg cls) ku l w
     = (Inr (), foldl (after_point ev cfg cls ku l) w
                  (List.product (PHI_RANGE cfg) (THETA_RANGE cfg)))"
proof -
  have sel: "select_phi_angles ev cfg = exec_return (PHI_RANGE cfg)"
    using fixed(1) by (simp add: select_phi_angles_def)
  show ?thesis
    unfolding run_sweep_sequence_def
    by (simp add: mode sel exec_bind_return
        outer_loop_forwarding [OF mode fixed(2) pose link runner])
qed

lemma after_points_fields:
  "clock_reads (foldl (after_point ev cfg cls ku l) w points) = clock_reads w + length points
   \<and> runs (foldl (after_point ev cfg cls ku l) w points) = runs w + length points
   \<and> direction_forward (foldl (after_point ev cfg cls ku l) w points)
       = flag_after cfg (direction_forward w) (length points)"
proof (induction points arbitrary: w)
  case Nil
  show ?case by (simp add: flag_after_def)
next
  case (Cons p points)
  have step: "clock_reads (after_point ev cfg cls ku l w p) = clock_reads w + 1"
    "runs (after_point ev cfg cls ku l w p) = runs w + 1"
    "direction_forward (after_point ev cfg cls ku l w p) = flag_after cfg (direction_forward w) 1"
    by (simp_all add: after_point_def Let_def flag_after_def)
  show ?case
    by (simp add: Cons.IH step flag_after_add)
qed

lemma expected_measurements_Cons:
  "expected_measurements ev cfg ku l clock d (p # points)
     = (sweep_name_of ev cfg (clock_now ev clock) ku l (fst p) (snd p),
        calculate_sweep_angles cfg d (fst p) (snd p))
       # expected_measurements ev cfg ku l (clock + 1) (flag_after cfg d 1) points"
proof -
  let ?f = "\<lambda>c e (k, point).
            (sweep_name_of ev cfg (clock_now ev (c + k)) ku l (fst point) (snd point),
             calculate_sweep_angles cfg (flag_after cfg e k) (fst point) (snd point))"
  have shift: "?f clock d (apfst Suc kp) = ?f (clock + 1) (flag_after cfg d 1) kp" for kp
    by (cases kp) (simp add: flag_after_add)
  have "enumerate 0 (p # points) = (0, p) # map (apfst Suc) (enumerate 0 points)"
    by (simp add: enumerate_Suc_eq)
  then have "expected_measurements ev cfg ku l clock d (p # points)
      = ?f clock d (0, p) # map (\<lambda>kp. ?f clock d (apfst Suc kp)) (enumerate 0 points)"
    by (simp only: expected_measurements_def list.map map_map comp_def)
  also have "\<dots> = ?f clock d (0, p)
      # map (?f (clock + 1) (flag_after cfg d 1)) (enumerate 0 points)"
    by (simp only: shift)
  finally show ?thesis
    by (simp add: expected_measurements_def flag_after_0)
qed

lemma after_points_measurements:
  "measurements (trace (foldl (after_point ev cfg cls ku l) w points))
     = measurements (trace w)
       @ expected_measurements ev cfg ku l (clock_reads w) (direction_forward w) points"
proof (induction points arbitrary: w)
  case Nil
  show ?case by (simp add: expected_measurements_def)
next
  case (Cons p points)
  have step: "clock_reads (after_point ev cfg cls ku l w p) = clock_reads w + 1"
    "direction_forward (after_point ev cfg cls ku l w p) = flag_after cfg (direction_forward w) 1"
    "measurements (trace (after_point ev cfg cls ku l w p))
       = measurements (trace w)
         @ [(sweep_name_of ev cfg (clock_now ev (clock_reads w)) ku l (fst p) (snd p),
             calculate_sweep_angles cfg (direction_forward w) (fst p) (snd p))]"
    by (simp_all add: after_point_def Let_def flag_after_def measurements_append)
  show ?case
    by (simp add: Cons.IH step expected_measurements_Cons)
qed

section \<open>The fourteen points of the shipped ranges\<close>

lemma replace_dot_keeps_out:
  "c \<notin> set s \<Longrightarrow> c \<noteq> CHR ''_'' \<Longrightarrow> c \<notin> set (replace_dot s)"
  by (induction s) auto

lemma takeWhile_stop:
  "\<forall>c\<in>set xs. P c \<Longrightarrow> \<not> P y \<Longrightarrow> takeWhile P (xs @ y # ys) = xs"
  by (induction xs) auto

lemma sweep_name_tail:
  assumes "CHR ''P'' \<notin> set (str_num (float_str ev) phi)"
    and "CHR ''P'' \<notin> set (str_num (float_str ev) theta)"
  shows "rev (takeWhile (\<lambda>c. c \<noteq> CHR ''P'') (rev (sweep_name_of ev cfg ts ku l phi theta)))
     = ''hi_'' @ replace_dot (str_num (float_str ev) phi) @ ''_Theta_''
       @ replace_dot (str_num (float_str ev) theta)"
proof -
  let ?tail = "''hi_'' @ replace_dot (str_num (float_str ev) phi) @ ''_Theta_''
       @ replace_dot (str_num (float_str ev) theta)"
  obtain head where name: "sweep_name_of ev cfg ts ku l phi theta = head @ CHR ''P'' # ?tail"
    by (simp add: sweep_name_of_def Let_def)
  have clean: "\<forall>c\<in>set (rev ?tail). c \<noteq> CHR ''P''"
    using replace_dot_keeps_out [OF assms(1)] replace_dot_keeps_out [OF assms(2)] by auto
  have "takeWhile (\<lambda>c. c \<noteq> CHR ''P'') (rev ?tail @ CHR ''P'' # rev head) = rev ?tail"
    by (rule takeWhile_stop [OF clean]) simp
  then show ?thesis unfolding name by (simp only: rev_append rev.simps append_assoc append.simps rev_rev_ident)
qed

lemma claimed_points:
  "List.product (map PyInt [0, 180]) (map PyInt [0, 5, 10, 15, 20, 25, 30])
     = [(PyInt 0, PyInt 0), (PyInt 0, PyInt 5), (PyInt 0, PyInt 10), (PyInt 0, PyInt 15),
        (PyInt 0, PyInt 20), (PyInt 0, PyInt 25), (PyInt 0, PyInt 30),
        (PyInt 180, PyInt 0), (PyInt 180, PyInt 5), (PyInt 180, PyInt 10), (PyInt 180, PyInt 15),
        (PyInt 180, PyInt 20), (PyInt 180, PyInt 25), (PyInt 180, PyInt 30)]"
  by simp

lemma expected_measurements_names:
  "map fst (expected_measurements ev cfg ku l clock d points)
     = map (\<lambda>(k, point). sweep_name_of ev cfg (clock_now ev (clock + k)) ku l (fst point) (snd point))
         (enumerate 0 points)"
  by (simp add: expected_measurements_def case_prod_beta comp_def)

lemma claimed_names_distinct:
  "distinct (map fst (expected_measurements ev cfg ku l clock d
      (List.product (map PyInt [0, 180]) (map PyInt [0, 5, 10, 15, 20, 25, 30]))))"
proof -
  let ?names = "map fst (expected_measurements ev cfg ku l clock d
      (List.product (map PyInt [0, 180]) (map PyInt [0, 5, 10, 15, 20, 25, 30])))"
  let ?g = "\<lambda>name. rev (takeWhile (\<lambda>c. c \<noteq> CHR ''P'') (rev name))"
  have tail: "?g (sweep_name_of ev cfg ts ku l (PyInt i) (PyInt j))
      = ''hi_'' @ replace_dot (str_int i) @ ''_Theta_'' @ replace_dot (str_int j)"
    if "CHR ''P'' \<notin> set (str_int i)" "CHR ''P'' \<notin> set (str_int j)" for ts i j
    using sweep_name_tail [of ev "PyInt i" "PyInt j" cfg ts ku l] that by simp
  have digits: "str_int 0 = ''0''" "str_int 5 = ''5''" "str_int 10 = ''10''" "str_int 15 = ''15''"
    "str_int 20 = ''20''" "str_int 25 = ''25''" "str_int 30 = ''30''" "str_int 180 = ''180''"
    by (simp_all add: str_int_def)
  have "map ?g ?names
      = [''hi_0_Theta_0'', ''hi_0_Theta_5'', ''hi_0_Theta_10'', ''hi_0_Theta_15'',
         ''hi_0_Theta_20'', ''hi_0_Theta_25'', ''hi_0_Theta_30'',
         ''hi_180_Theta_0'', ''hi_180_Theta_5'', ''hi_180_Theta_10'', ''hi_180_Theta_15'',
         ''hi_180_Theta_20'', ''hi_180_Theta_25'', ''hi_180_Theta_30'']"
    unfolding expected_measurements_names claimed_points
    by (simp add: enumerate_Suc_eq tail digits del: str_nat.simps)
  then have "distinct (map ?g ?names)" by simp
  then show ?thesis by (simp only: distinct_map)
qed

text \<open>
  In the forwarding mode, with fixed ranges and a link and a runner that do not raise,
  the run completes and the measurements made are those of the points of
  \<open>PHI_RANGE \<times> THETA_RANGE\<close>, \<open>phi\<close> outermost, one after the other; for the ranges of
  the shipped configuration these are 14 measurements under distinct names.
\<close>

lemma forwarding_run_measurements:
  assumes mode: "ARRAY_INTERFACE cfg = ''app_cli_message_forewarding''"
    and fixed: "\<not> PHI_RANGE_RANDOM cfg" "\<not> THETA_RANGE_RANDOM cfg"
    and pose: "\<And>kw. \<exists>s. str_format ev (POSE_CMD cls) kw = Inr s"
    and link: "\<And>k. serial_link ev k \<noteq> LinkFailure"
    and runner: "\<And>k. sweep_runner ev k \<noteq> RunnerRaised"
  shows "fst (run_sweep_sequence ev cfg (ArrayController ev cfg cls) ku l w) = Inr ()
     \<and> measurements (trace (snd (run_sweep_sequence ev cfg (ArrayController ev cfg cls) ku l w)))
       = measurements (trace w)
         @ expected_measurements ev cfg ku l (clock_reads w) (direction_forward w)
             (List.product (PHI_RANGE cfg) (THETA_RANGE cfg))"
  by (simp add: run_forwarding [OF mode fixed pose link runner] after_points_measurements)

lemma forwarding_run_fourteen:
  assumes mode: "ARRAY_INTERFACE cfg = ''app_cli_message_forewarding''"
    and fixed: "\<not> PHI_RANGE_RANDOM cfg" "\<not> THETA_RANGE_RANDOM cfg"
    and ranges: "PHI_RANGE cfg = map PyInt [0, 180]"
      "THETA_RANGE cfg = map PyInt [0, 5, 10, 15, 20, 25, 30]"
    and pose: "\<And>kw. \<exists>s. str_format ev (POSE_CMD cls) kw = Inr s"
    and link: "\<And>k. serial_link ev k \<noteq> LinkFailure"
    and runner: "\<And>k. sweep_runner ev k \<noteq> RunnerRaised"
  shows "\<exists>made. measurements (trace (snd (run_sweep_sequence ev cfg (ArrayController ev cfg cls)
                      ku l w))) = measurements (trace w) @ made
           \<and> length made = 14 \<and> distinct (map fst made)
           \<and> made = expected_measurements ev cfg ku l (clock_reads w) (direction_forward w)
                (List.product (map PyInt [0, 180]) (map PyInt [0, 5, 10, 15, 20, 25, 30]))"
proof -
  let ?made = "expected_measurements ev cfg ku l (clock_reads w) (direction_forward w)
                (List.product (map PyInt [0, 180]) (map PyInt [0, 5, 10, 15, 20, 25, 30]))"
  have "measurements (trace (snd (run_sweep_sequence ev cfg (ArrayController ev cfg cls) ku l w)))
      = measurements (trace w) @ ?made"
    using forwarding_run_measurements [OF mode fixed pose link runner] ranges by simp
  moreover have "length ?made = 14" by (simp add: expected_measurements_def)
  moreover have "distinct (map fst ?made)" by (rule claimed_names_distinct)
  ultimately show ?thesis by blast
qed

lemma bench_forwarding_run:
  "\<exists>made. measurements (trace (snd (run_sweep_sequence bench_env forwarding_config
             (ArrayController bench_env forwarding_config bench_messages)
             11600000000 1500000000 initial_world))) = made
        \<and> length made = 14 \<and> distinct (map fst made)"
proof -
  have mode: "ARRAY_INTERFACE forwarding_config = ''app_cli_message_forewarding''"
    by (simp add: forwarding_config_def)
  have fixed: "\<not> PHI_RANGE_RANDOM forwarding_config" "\<not> THETA_RANGE_RANDOM forwarding_config"
    by (simp_all add: forwarding_config_def shipped_config_def)
  have ranges: "PHI_RANGE forwarding_config = map PyInt [0, 180]"
      "THETA_RANGE forwarding_config = map PyInt [0, 5, 10, 15, 20, 25, 30]"
    by (simp_all add: forwarding_config_def shipped_config_def)
  have pose: "\<exists>s. str_format bench_env (POSE_CMD bench_messages) kw = Inr s" for kw
    by (simp add: bench_env_def)
  have link: "serial_link bench_env k \<noteq> LinkFailure" for k by (simp add: bench_env_def)
  have runner: "sweep_runner bench_env k \<noteq> RunnerRaised" for k by (simp add: bench_env_def)
  have start: "measurements (trace initial_world) = []" by (simp add: initial_world_def)
  show ?thesis
    using forwarding_run_fourteen [OF mode fixed ranges pose link runner,
        of 11600000000 1500000000 initial_world] start
    by auto
qed

section \<open>The sweep sequence\<close>

text \<open>
  Claim C2. In every configuration whose interface mode is not
  \<open>app_cli_message_forewarding\<close> the sequence asks the \<open>ArrayController\<close> for
  \<open>control_pose\<close>, which it does not have. The run leaves the trace, the serial link and
  the runner untouched: no command is dispatched and no measurement is made. As soon as
  there is a first sweep point (a first \<open>phi\<close> and a first \<open>theta\<close>), the run ends with
  AttributeError.
\<close>

theorem missing_control_pose:
  assumes "ARRAY_INTERFACE cfg \<noteq> ''app_cli_message_forewarding''"
  shows "obj_control_pose (ArrayController ev cfg cls) = None
         \<and> trace (snd (run_sweep_sequence ev cfg (ArrayController ev cfg cls) ku l w)) = trace w
         \<and> sends (snd (run_sweep_sequence ev cfg (ArrayController ev cfg cls) ku l w)) = sends w
         \<and> runs (snd (run_sweep_sequence ev cfg (ArrayController ev cfg cls) ku l w)) = runs w
         \<and> ((PHI_RANGE_RANDOM cfg \<or> PHI_RANGE cfg \<noteq> [])
               \<and> (THETA_RANGE_RANDOM cfg \<or> THETA_RANGE cfg \<noteq> [])
             \<longrightarrow> fst (run_sweep_sequence ev cfg (ArrayController ev cfg cls) ku l w)
                   = Inl AttributeError)"
proof -
  obtain k where "run_sweep_sequence ev cfg (ArrayController ev cfg cls) ku l w
     = (if (PHI_RANGE_RANDOM cfg \<or> PHI_RANGE cfg \<noteq> [])
           \<and> (THETA_RANGE_RANDOM cfg \<or> THETA_RANGE cfg \<noteq> [])
        then Inl AttributeError else Inr (), w\<lparr>draws_used := k\<rparr>)"
    using run_without_pose_method [OF assms] by blast
  then show ?thesis by (simp add: ArrayController_def)
qed

theorem missing_control_pose_witness:
  "ARRAY_INTERFACE (shipped_config\<lparr>ARRAY_INTERFACE := ''app_cli_pointing_generator''\<rparr>)
     \<noteq> ''app_cli_message_forewarding''
   \<and> fst (run_sweep_sequence bench_env
            (shipped_config\<lparr>ARRAY_INTERFACE := ''app_cli_pointing_generator''\<rparr>)
            (ArrayController bench_env
               (shipped_config\<lparr>ARRAY_INTERFACE := ''app_cli_pointing_generator''\<rparr>) bench_messages)
            11600000000 1500000000 initial_world) = Inl AttributeError
   \<and> trace (snd (run_sweep_sequence bench_env
            (shipped_config\<lparr>ARRAY_INTERFACE := ''app_cli_pointing_generator''\<rparr>)
            (ArrayController bench_env
               (shipped_config\<lparr>ARRAY_INTERFACE := ''app_cli_pointing_generator''\<rparr>) bench_messages)
            11600000000 1500000000 initial_world)) = []"
proof -
  let ?cfg = "shipped_config\<lparr>ARRAY_INTERFACE := ''app_cli_pointing_generator''\<rparr>"
  have mode: "ARRAY_INTERFACE ?cfg \<noteq> ''app_cli_message_forewarding''" by simp
  have points: "PHI_RANGE ?cfg \<noteq> []" "THETA_RANGE ?cfg \<noteq> []"
    by (simp_all add: shipped_config_def)
  have start: "trace initial_world = []" by (simp add: initial_world_def)
  show ?thesis
    using missing_control_pose [OF mode, of bench_env bench_messages 11600000000 1500000000 initial_world]
      mode points start
    by simp
qed

text \<open>
  Claim C3, at the configuration \<open>config.py\<close> ships with (one frequency, \<open>phi\<close> in
  \<open>[0, 180]\<close>, \<open>theta\<close> in \<open>[0, 5, ..., 30]\<close>, \<open>ARRAY_INTERFACE = ""\<close>): the run ends with
  AttributeError at the first point and the measurement collaborator is not invoked at
  all, where the claim expects 14 invocations.
\<close>

theorem shipped_run_never_measures:
  "fst (run_sweep_sequence bench_env shipped_config
          (ArrayController bench_env shipped_config shipped_messages)
          11600000000 1500000000 initial_world) = Inl AttributeError
   \<and> measurements (trace (snd (run_sweep_sequence bench_env shipped_config
          (ArrayController bench_env shipped_config shipped_messages)
          11600000000 1500000000 initial_world))) = []"
proof -
  have mode: "ARRAY_INTERFACE shipped_config \<noteq> ''app_cli_message_forewarding''"
    by (simp add: shipped_config_def)
  have points: "PHI_RANGE shipped_config \<noteq> []" "THETA_RANGE shipped_config \<noteq> []"
    by (simp_all add: shipped_config_def)
  obtain k where "run_sweep_sequence bench_env shipped_config
          (ArrayController bench_env shipped_config shipped_messages)
          11600000000 1500000000 initial_world
     = (if (PHI_RANGE_RANDOM shipped_config \<or> PHI_RANGE shipped_config \<noteq> [])
           \<and> (THETA_RANGE_RANDOM shipped_config \<or> THETA_RANGE shipped_config \<noteq> [])
        then Inl AttributeError else Inr (), initial_world\<lparr>draws_used := k\<rparr>)"
    using run_without_pose_method [OF mode] by blast
  then show ?thesis using points by (simp add: initial_world_def)
qed

text \<open>
  Claim C7. Along every run of the sequence, whatever the serial link and the runner
  report, the values assigned to the direction flag are, with \<open>SWEEP_BOTH_DIRECTIONS\<close>
  set, the negation of the initial flag, the initial flag, its negation, and so on, one
  assignment per completed point; without it every assignment is the initial flag.
  \<open>n\<close>, the number of assignments, is the number of calls of the runner that returned.
  A single \<open>perform_sweep\<close> hands back the negated flag (or the same flag) whenever the
  runner returns.
\<close>

theorem direction_flag_alternates:
  "(\<exists>n. direction_log (snd (run_sweep_sequence ev cfg (ArrayController ev cfg cls) ku l w))
          = direction_log w
            @ map (\<lambda>k. if SWEEP_BOTH_DIRECTIONS cfg \<and> even k
                        then \<not> direction_forward w else direction_forward w) [0..<n]
      \<and> direction_forward (snd (run_sweep_sequence ev cfg (ArrayController ev cfg cls) ku l w))
          = (if SWEEP_BOTH_DIRECTIONS cfg \<and> odd n
             then \<not> direction_forward w else direction_forward w)
      \<and> n = returned ev (runs w)
               (runs (snd (run_sweep_sequence ev cfg (ArrayController ev cfg cls) ku l w))))
   \<and> fst (perform_sweep ev cfg d ku l phi theta w)
       = (if sweep_runner ev (runs w) = RunnerRaised then Inl MeasurementError
          else Inr (if SWEEP_BOTH_DIRECTIONS cfg then \<not> d else d))"
proof
  have "progress ev cfg w (snd (run_sweep_sequence ev cfg (ArrayController ev cfg cls) ku l w))"
    by (rule run_sweep_sequence_progress)
  then show "\<exists>n. direction_log (snd (run_sweep_sequence ev cfg (ArrayController ev cfg cls) ku l w))
          = direction_log w
            @ map (\<lambda>k. if SWEEP_BOTH_DIRECTIONS cfg \<and> even k
                        then \<not> direction_forward w else direction_forward w) [0..<n]
      \<and> direction_forward (snd (run_sweep_sequence ev cfg (ArrayController ev cfg cls) ku l w))
          = (if SWEEP_BOTH_DIRECTIONS cfg \<and> odd n
             then \<not> direction_forward w else direction_forward w)
      \<and> n = returned ev (runs w)
               (runs (snd (run_sweep_sequence ev cfg (ArrayController ev cfg cls) ku l w)))"
    unfolding progress_def alternation_def flag_after_def by simp
  show "fst (perform_sweep ev cfg d ku l phi theta w)
       = (if sweep_runner ev (runs w) = RunnerRaised then Inl MeasurementError
          else Inr (if SWEEP_BOTH_DIRECTIONS cfg then \<not> d else d))"
    by (simp add: perform_sweep_raises perform_sweep_returns)
qed

text \<open>
  Claim C1, as the code has it. In the mode \<open>app_cli_message_forewarding\<close>,
  \<open>control_array\<close> is \<open>_control_pose\<close>: for every sweep point the command set handed to
  the serial link is the pose command (roll 0, the pitch \<open>theta\<close> for \<open>phi > 90\<close> and
  \<open>360 - theta\<close> otherwise, yaw 0, x 0, y 0) followed by the pointing trigger, and
  nothing else. No command list is handed over when the pose template fails to format
  or the port fails to open.
\<close>

theorem forwarding_dispatches_pose:
  assumes "ARRAY_INTERFACE cfg = ''app_cli_message_forewarding''"
  shows "control_array ev cfg cls ku phi theta = underscore_control_pose ev cls phi theta
         \<and> sent_commands (trace (snd (sweep_point ev cfg (ArrayController ev cfg cls) ku l phi theta w)))
           = sent_commands (trace w)
             @ (case str_format ev (POSE_CMD cls)
                       [(''roll'', vint 0),
                        (''pitch'', VNum (if 90 < num_val phi then theta else int_minus 360 theta)),
                        (''yaw'', vint 0), (''x'', vint 0), (''y'', vint 0)] of
                  Inl e \<Rightarrow> []
                | Inr pose \<Rightarrow>
                    if serial_link ev (sends w) = LinkFailure then []
                    else [[pose, POINTING_GEN_CMD cls]])"
proof
  show "control_array ev cfg cls ku phi theta = underscore_control_pose ev cls phi theta"
    using assms by (rule control_array_forwarding)
  show "sent_commands (trace (snd (sweep_point ev cfg (ArrayController ev cfg cls) ku l phi theta w)))
           = sent_commands (trace w)
             @ (case str_format ev (POSE_CMD cls)
                       [(''roll'', vint 0),
                        (''pitch'', VNum (if 90 < num_val phi then theta else int_minus 360 theta)),
                        (''yaw'', vint 0), (''x'', vint 0), (''y'', vint 0)] of
                  Inl e \<Rightarrow> []
                | Inr pose \<Rightarrow>
                    if serial_link ev (sends w) = LinkFailure then []
                    else [[pose, POINTING_GEN_CMD cls]])"
    unfolding sweep_point_forwarding_sent [OF assms]
    by (simp add: get_pose_commands_def sum_bind_def split: sum.splits)
qed

lemma bench_point_dispatch:
  "sent_commands (trace (snd (sweep_point bench_env forwarding_config
       (ArrayController bench_env forwarding_config bench_messages)
       11600000000 1500000000 (PyInt 0) (PyInt 5) initial_world)))
     = [[''POSE'', ''POINT'']]"
proof -
  have mode: "ARRAY_INTERFACE forwarding_config = ''app_cli_message_forewarding''"
    by (simp add: forwarding_config_def)
  show ?thesis
    unfolding sweep_point_forwarding_sent [OF mode]
    by (simp add: get_pose_commands_def sum_bind_def bench_env_def bench_messages_def
        initial_world_def)
qed

theorem forwarding_dispatches_pose_witness:
  "ARRAY_INTERFACE forwarding_config = ''app_cli_message_forewarding''
   \<and> control_array bench_env forwarding_config bench_messages 11600000000 (PyInt 0) (PyInt 5)
       = underscore_control_pose bench_env bench_messages (PyInt 0) (PyInt 5)
   \<and> sent_commands (trace (snd (sweep_point bench_env forwarding_config
       (ArrayController bench_env forwarding_config bench_messages)
       11600000000 1500000000 (PyInt 0) (PyInt 5) initial_world)))
     = [[''POSE'', ''POINT'']]"
proof -
  have mode: "ARRAY_INTERFACE forwarding_config = ''app_cli_message_forewarding''"
    by (simp add: forwarding_config_def)
  have "control_array bench_env forwarding_config bench_messages 11600000000 (PyInt 0) (PyInt 5)
       = underscore_control_pose bench_env bench_messages (PyInt 0) (PyInt 5)"
    using forwarding_dispatches_pose [OF mode] by (rule conjunct1)
  then show ?thesis using mode bench_point_dispatch by blast
qed

text \<open>
  The claim as stated expects the band, channel, attenuation and steering commands of
  the \<open>ARRAY_INTERFACE == ""\<close> branch. With a filled-in catalogue the forwarding mode
  sends the two pose commands for the point \<open>(11.6 GHz, 0, 5)\<close>; the band and
  attenuation commands that branch builds for the same frequency, and the steering
  commands for the same angles, are not among them. The branch itself, taken in the
  mode \<open>""\<close>, raises TypeError: its keyword \<open>array\<close> is not a parameter of
  \<open>get_phased_array_commands\<close>.
\<close>

theorem forwarding_sends_no_band_commands:
  "ARRAY_INTERFACE forwarding_config = ''app_cli_message_forewarding''
   \<and> sent_commands (trace (snd (sweep_point bench_env forwarding_config
         (ArrayController bench_env forwarding_config bench_messages)
         11600000000 1500000000 (PyInt 0) (PyInt 5) initial_world)))
       = [[''POSE'', ''POINT'']]
   \<and> sum_bind get_default_attenuation_codes
         (atten_command_block bench_env forwarding_config bench_messages 11600000000)
       = Inr [''BAND'', ''CHAN'', ''BPL'', ''BPL'', ''BPL'', ''BPL'', ''IFATT'']
   \<and> get_phased_array_commands bench_env bench_messages [] (PyInt 0) (PyInt 5) (PyInt 0)
         11600000000 (PyInt (POL_ANGLE forwarding_config)) True
       = Inr [''STEER'', ''RF'']
   \<and> set [''BAND'', ''CHAN'', ''BPL'', ''IFATT'', ''STEER'', ''RF'']
         \<inter> set (concat [[''POSE'', ''POINT'']]) = {}
   \<and> fst (control_array bench_env shipped_config bench_messages 11600000000 (PyInt 0) (PyInt 5)
            initial_world) = Inl TypeError"
proof (intro conjI)
  show "ARRAY_INTERFACE forwarding_config = ''app_cli_message_forewarding''"
    by (simp add: forwarding_config_def)
  show "sent_commands (trace (snd (sweep_point bench_env forwarding_config
         (ArrayController bench_env forwarding_config bench_messages)
         11600000000 1500000000 (PyInt 0) (PyInt 5) initial_world)))
       = [[''POSE'', ''POINT'']]"
    by (rule bench_point_dispatch)
  have codes_block: "atten_command_block bench_env cfg bench_messages 11600000000
         ([0, 0, 0, 0], [0])
       = Inr [''BAND'', ''CHAN'', ''BPL'', ''BPL'', ''BPL'', ''BPL'', ''IFATT'']" for cfg
    by (simp add: atten_command_block_def Let_def sum_bind_def
        dict_get_def bench_env_def bench_messages_def py_range_def upt_conv_Cons
        list_get_def py_index_def)
  have block: "sum_bind get_default_attenuation_codes
         (atten_command_block bench_env cfg bench_messages 11600000000)
       = Inr [''BAND'', ''CHAN'', ''BPL'', ''BPL'', ''BPL'', ''BPL'', ''IFATT'']" for cfg
    by (simp add: default_attenuation_codes codes_block sum_bind_def)
  show "sum_bind get_default_attenuation_codes
         (atten_command_block bench_env forwarding_config bench_messages 11600000000)
       = Inr [''BAND'', ''CHAN'', ''BPL'', ''BPL'', ''BPL'', ''BPL'', ''IFATT'']"
    by (rule block)
  show "get_phased_array_commands bench_env bench_messages [] (PyInt 0) (PyInt 5) (PyInt 0)
         11600000000 (PyInt (POL_ANGLE forwarding_config)) True
       = Inr [''STEER'', ''RF'']"
    by (simp add: get_phased_array_commands_def sum_bind_def bench_env_def bench_messages_def)
  show "set [''BAND'', ''CHAN'', ''BPL'', ''IFATT'', ''STEER'', ''RF'']
         \<inter> set (concat [[''POSE'', ''POINT'']]) = {}"
    by simp
  have "control_array_local bench_env shipped_config bench_messages 11600000000 (PyInt 0) (PyInt 5)
      = Inl TypeError"
    by (simp add: control_array_local_def default_attenuation_codes codes_block sum_bind_def
        control_array_keywords_def get_phased_array_commands_params_def)
  then show "fst (control_array bench_env shipped_config bench_messages 11600000000 (PyInt 0) (PyInt 5)
            initial_world) = Inl TypeError"
    by (simp add: control_array_def shipped_config_def exec_bind_def exec_lift_def)
qed

lemma noisy_run:
  "run_sweep_sequence noisy_env two_way_config
       (ArrayController noisy_env two_way_config bench_messages) 11600000000 1500000000 initial_world
     = (Inr (), foldl (after_point noisy_env two_way_config bench_messages 11600000000 1500000000)
                  initial_world
                  [(PyInt 0, PyInt 0), (PyInt 0, PyInt 5), (PyInt 180, PyInt 0), (PyInt 180, PyInt 5)])"
proof -
  have mode: "ARRAY_INTERFACE two_way_config = ''app_cli_message_forewarding''"
    by (simp add: two_way_config_def forwarding_config_def)
  have fixed: "\<not> PHI_RANGE_RANDOM two_way_config" "\<not> THETA_RANGE_RANDOM two_way_config"
    by (simp_all add: two_way_config_def forwarding_config_def shipped_config_def)
  have pose: "\<exists>s. str_format noisy_env (POSE_CMD bench_messages) kw = Inr s" for kw
    by (simp add: noisy_env_def bench_env_def)
  have link: "serial_link noisy_env k \<noteq> LinkFailure" for k by (simp add: noisy_env_def)
  have runner: "sweep_runner noisy_env k \<noteq> RunnerRaised" for k by (simp add: noisy_env_def)
  have points: "List.product (PHI_RANGE two_way_config) (THETA_RANGE two_way_config)
      = [(PyInt 0, PyInt 0), (PyInt 0, PyInt 5), (PyInt 180, PyInt 0), (PyInt 180, PyInt 5)]"
    by (simp add: two_way_config_def)
  show ?thesis
    using run_forwarding [OF mode fixed pose link runner, of 11600000000 1500000000 initial_world]
    unfolding points .
qed

text \<open>
  The flag along that run: four points, four assignments, starting from \<open>True\<close>.
\<close>

theorem direction_flag_alternates_witness:
  "fst (run_sweep_sequence noisy_env two_way_config
          (ArrayController noisy_env two_way_config bench_messages)
          11600000000 1500000000 initial_world) = Inr ()
   \<and> direction_log (snd (run_sweep_sequence noisy_env two_way_config
          (ArrayController noisy_env two_way_config bench_messages)
          11600000000 1500000000 initial_world)) = [False, True, False, True]
   \<and> direction_forward (snd (run_sweep_sequence noisy_env two_way_config
          (ArrayController noisy_env two_way_config bench_messages)
          11600000000 1500000000 initial_world)) = True"
proof -
  let ?run = "run_sweep_sequence noisy_env two_way_config
          (ArrayController noisy_env two_way_config bench_messages)
          11600000000 1500000000 initial_world"
  have both: "SWEEP_BOTH_DIRECTIONS two_way_config" by (simp add: two_way_config_def)
  have start: "direction_log initial_world = []" "direction_forward initial_world"
    "runs initial_world = 0"
    by (simp_all add: initial_world_def)
  have finished: "fst ?run = Inr ()" by (simp add: noisy_run)
  have count: "runs (snd ?run) = 4"
    using after_points_fields [of noisy_env two_way_config bench_messages 11600000000 1500000000
        initial_world "[(PyInt 0, PyInt 0), (PyInt 0, PyInt 5), (PyInt 180, PyInt 0), (PyInt 180, PyInt 5)]"]
    by (simp add: noisy_run start)
  have all_returned: "returned noisy_env 0 4 = 4"
    by (simp add: returned_def noisy_env_def)
  obtain n where n: "direction_log (snd ?run)
          = direction_log initial_world
            @ map (\<lambda>k. if SWEEP_BOTH_DIRECTIONS two_way_config \<and> even k
                        then \<not> direction_forward initial_world
                        else direction_forward initial_world) [0..<n]"
      "direction_forward (snd ?run)
          = (if SWEEP_BOTH_DIRECTIONS two_way_config \<and> odd n
             then \<not> direction_forward initial_world else direction_forward initial_world)"
      "n = returned noisy_env (runs initial_world) (runs (snd ?run))"
    using direction_flag_alternates [of noisy_env two_way_config bench_messages
        11600000000 1500000000 initial_world] by blast
  have n4: "n = 4" using n(3) count start(3) all_returned by simp
  have "direction_log (snd ?run) = [False, True, False, True]"
    using n(1) both start unfolding n4 by (simp add: upt_conv_Cons)
  moreover have "direction_forward (snd ?run) = True"
    using n(2) both start unfolding n4 by simp
  ultimately show ?thesis using finished by blast
qed

end
